theory Spec2Isabelle
  imports Main "HOL-Library.Word" "HOL-Library.AList"
begin

section \<open>Values of the platform\<close>

text \<open>
  A JavaScript string is modelled as a HOL \<open>string\<close>: a list of characters, each one a
  code unit of the range 0..255. A \<open>Buffer\<close> or \<open>Uint8Array\<close> is a list of bytes.
  A number is modelled by an integer: the numbers of the records are Unix epoch
  milliseconds.
\<close>

type_synonym byte = "8 word"

text \<open>What a \<open>throw\<close> carries: the built-in error kinds the code can meet, and
  \<open>new Error(message)\<close>.\<close>

datatype exn = SyntaxError | TypeError | Error string

text \<open>
  The functions the code imports from the platform and from its dependencies and that are
  no code of the repository. They are parameters of the model:
  \<^item> \<open>normalize_NFC\<close>: \<open>String.prototype.normalize('NFC')\<close>;
  \<^item> \<open>sha256_hex\<close>: \<open>createHash('sha256').update(b).digest('hex')\<close>;
  \<^item> \<open>utf8_encode\<close>: \<open>new TextEncoder().encode(s)\<close>, and the \<open>'utf8'\<close> input encoding of a hash;
  \<^item> \<open>base64_encode\<close>, \<open>base64_decode\<close>: \<open>Buffer.from(b).toString('base64')\<close> and
    \<open>Buffer.from(s, 'base64')\<close>;
  \<^item> \<open>ed_sign\<close>, \<open>ed_getPublicKey\<close>, \<open>ed_verify\<close>: the functions of \<open>@noble/ed25519\<close>, which
    throw on an argument of the wrong shape.
\<close>

record externals =
  normalize_NFC :: "string \<Rightarrow> string"
  sha256_hex :: "byte list \<Rightarrow> string"
  utf8_encode :: "string \<Rightarrow> byte list"
  base64_encode :: "byte list \<Rightarrow> string"
  base64_decode :: "string \<Rightarrow> byte list"
  ed_sign :: "byte list \<Rightarrow> byte list \<Rightarrow> exn + byte list"
  ed_getPublicKey :: "byte list \<Rightarrow> exn + byte list"
  ed_verify :: "byte list \<Rightarrow> byte list \<Rightarrow> byte list \<Rightarrow> exn + bool"

text \<open>
  The effects of the session code: \<open>Date.now()\<close> and \<open>uuidv4()\<close>. The world holds what
  the successive calls return; a call takes the first reading and leaves the rest.
\<close>

record world =
  clock :: "nat \<Rightarrow> int"
  uuids :: "nat \<Rightarrow> string"

definition Date_now :: "world \<Rightarrow> int \<times> world" where
  "Date_now w = (clock w 0, w\<lparr>clock := \<lambda>n. clock w (Suc n)\<rparr>)"

definition uuidv4 :: "world \<Rightarrow> string \<times> world" where
  "uuidv4 w = (uuids w 0, w\<lparr>uuids := \<lambda>n. uuids w (Suc n)\<rparr>)"

section \<open>Hashing and intent canonicalization\<close>

definition hashDocument :: "externals \<Rightarrow> byte list \<Rightarrow> string" where
  "hashDocument lib buffer = sha256_hex lib buffer"

definition hashString :: "externals \<Rightarrow> string \<Rightarrow> string" where
  "hashString lib txt = sha256_hex lib (utf8_encode lib txt)"

text \<open>
  The white space of a regular expression's \<open>\s\<close> and of \<open>trim\<close>, among the code units
  0..255: TAB, LF, VT, FF, CR, SP and NBSP. \<open>[^\S\n]\<close> is white space other than LF.
\<close>

definition isWhiteSpace :: "char \<Rightarrow> bool" where
  "isWhiteSpace c =
     (c = CHR 0x09 \<or> c = CHR 0x0A \<or> c = CHR 0x0B \<or> c = CHR 0x0C \<or> c = CHR 0x0D \<or>
      c = CHR 0x20 \<or> c = CHR 0xA0)"

definition isInlineSpace :: "char \<Rightarrow> bool" where
  "isInlineSpace c = (isWhiteSpace c \<and> c \<noteq> CHR 0x0A)"

text \<open>\<open>.replace(/\r\n/g, '\n')\<close>: every CR LF, found from the left, becomes LF.\<close>

fun replace_crlf :: "string \<Rightarrow> string" where
  "replace_crlf (c # d # r) =
     (if c = CHR 0x0D \<and> d = CHR 0x0A then CHR 0x0A # replace_crlf r
      else c # replace_crlf (d # r))"
| "replace_crlf r = r"

text \<open>\<open>.replace(/\r/g, '\n')\<close>: every CR becomes LF.\<close>

definition replace_cr :: "string \<Rightarrow> string" where
  "replace_cr s = map (\<lambda>c. if c = CHR 0x0D then CHR 0x0A else c) s"

text \<open>\<open>.replace(/[^\S\n]+/g, ' ')\<close>: every maximal run of white space other than LF
  becomes one space.\<close>

function collapse_whitespace :: "string \<Rightarrow> string" where
  "collapse_whitespace [] = []"
| "collapse_whitespace (c # r) =
     (if isInlineSpace c then CHR 0x20 # collapse_whitespace (dropWhile isInlineSpace r)
      else c # collapse_whitespace r)"
  by pat_completeness auto
termination
  by (relation "measure length") (auto simp: length_dropWhile_le less_Suc_eq_le)

text \<open>\<open>.trim()\<close>: the white space at both ends is removed.\<close>

definition trim :: "string \<Rightarrow> string" where
  "trim s = rev (dropWhile isWhiteSpace (rev (dropWhile isWhiteSpace s)))"

definition canonicalizeIntent :: "externals \<Rightarrow> string \<Rightarrow> string" where
  "canonicalizeIntent lib txt =
     trim (collapse_whitespace (replace_cr (replace_crlf (normalize_NFC lib txt))))"

definition hashIntent :: "externals \<Rightarrow> string \<Rightarrow> string" where
  "hashIntent lib txt = (let canonical = canonicalizeIntent lib txt in hashString lib canonical)"

section \<open>Approval sessions\<close>

datatype ApprovalSessionStatus = pending | approved | expired

text \<open>The interface \<open>ApprovalSession\<close>; the fields carry the prefix \<open>s_\<close>. A field of type
  \<open>T | null\<close> is an option.\<close>

record ApprovalSession =
  s_id :: string
  s_secure_token :: string
  s_document_hash :: string
  s_document_path :: string
  s_document_name :: string
  s_intent_text :: string
  s_intent_hash :: string
  s_status :: ApprovalSessionStatus
  s_created_at :: int
  s_expires_at :: int
  s_approved_at :: "int option"
  s_signature_id :: "string option"

definition DEFAULT_EXPIRATION_MS :: int where
  "DEFAULT_EXPIRATION_MS = 24 * 60 * 60 * 1000"

definition createSession ::
  "externals \<Rightarrow> world \<Rightarrow> string \<Rightarrow> string \<Rightarrow> string \<Rightarrow> string \<Rightarrow> ApprovalSession \<times> world" where
  "createSession lib w documentHash documentPath documentName intentText =
     (let (now, w1) = Date_now w;
          (uuid1, w2) = uuidv4 w1;
          (uuid2, w3) = uuidv4 w2
      in (\<lparr>s_id = uuid1,
           s_secure_token = uuid2,
           s_document_hash = documentHash,
           s_document_path = documentPath,
           s_document_name = documentName,
           s_intent_text = intentText,
           s_intent_hash = hashIntent lib intentText,
           s_status = pending,
           s_created_at = now,
           s_expires_at = now + DEFAULT_EXPIRATION_MS,
           s_approved_at = None,
           s_signature_id = None\<rparr>, w3))"

definition canApprove :: "world \<Rightarrow> ApprovalSession \<Rightarrow> bool \<times> world" where
  "canApprove w session =
     (if s_status session \<noteq> pending then (False, w)
      else let (now, w1) = Date_now w
           in if now > s_expires_at session then (False, w1) else (True, w1))"

definition approveSession ::
  "world \<Rightarrow> ApprovalSession \<Rightarrow> string \<Rightarrow> (exn + ApprovalSession) \<times> world" where
  "approveSession w session signatureId =
     (let (ok, w1) = canApprove w session
      in if \<not> ok then
           (Inl (Error (if s_status session = expired then ''SESSION_EXPIRED''
                        else ''SESSION_ALREADY_APPROVED'')), w1)
         else let (now, w2) = Date_now w1
              in (Inr (session\<lparr>s_status := approved,
                                s_approved_at := Some now,
                                s_signature_id := Some signatureId\<rparr>), w2))"

definition expireSession :: "ApprovalSession \<Rightarrow> ApprovalSession" where
  "expireSession session = session\<lparr>s_status := expired\<rparr>"

section \<open>JavaScript values and JSON\<close>

text \<open>
  A value of type \<open>unknown\<close>. An object is the list of its properties in creation order,
  with distinct keys.
\<close>

datatype jsval =
    JUndefined
  | JNull
  | JBool bool
  | JNum int
  | JStr string
  | JArr "jsval list"
  | JObj "(string \<times> jsval) list"

fun typeof :: "jsval \<Rightarrow> string" where
  "typeof JUndefined = ''undefined''"
| "typeof JNull = ''object''"
| "typeof (JBool b) = ''boolean''"
| "typeof (JNum n) = ''number''"
| "typeof (JStr s) = ''string''"
| "typeof (JArr vs) = ''object''"
| "typeof (JObj kvs) = ''object''"

text \<open>
  \<open>x.k\<close> where \<open>x\<close> is neither \<open>undefined\<close> nor \<open>null\<close>, for the property names the code
  reads (none of them is a built-in property of a string, a number or an array): a missing
  property reads as \<open>undefined\<close>.
\<close>

fun property :: "jsval \<Rightarrow> string \<Rightarrow> jsval" where
  "property (JObj kvs) k = (case map_of kvs k of Some v \<Rightarrow> v | None \<Rightarrow> JUndefined)"
| "property v k = JUndefined"

text \<open>\<open>x.k\<close> for any \<open>x\<close>: reading a property of \<open>undefined\<close> or \<open>null\<close> throws a TypeError.\<close>

fun get_property :: "jsval \<Rightarrow> string \<Rightarrow> exn + jsval" where
  "get_property JUndefined k = Inl TypeError"
| "get_property JNull k = Inl TypeError"
| "get_property v k = Inr (property v k)"

text \<open>\<open>k in x\<close>: a TypeError unless \<open>x\<close> is an object.\<close>

fun has_property :: "string \<Rightarrow> jsval \<Rightarrow> exn + bool" where
  "has_property k (JObj kvs) = Inr (k \<in> set (map fst kvs))"
| "has_property k (JArr vs) = Inr False"
| "has_property k v = Inl TypeError"

subsection \<open>\<open>JSON.stringify\<close>\<close>

definition digit_char :: "nat \<Rightarrow> char" where
  "digit_char n = char_of (48 + n)"

definition hex_digit :: "nat \<Rightarrow> char" where
  "hex_digit n = (if n < 10 then char_of (48 + n) else char_of (87 + n))"

fun digits :: "nat \<Rightarrow> string" where
  "digits n = (if n < 10 then [digit_char n] else digits (n div 10) @ [digit_char (n mod 10)])"

declare digits.simps [simp del]

text \<open>\<open>Number.prototype.toString\<close> on an integer: its decimal digits. (JavaScript writes an
  integer of 22 digits or more with an exponent; a timestamp has 13 digits.)\<close>

definition Number_toString :: "int \<Rightarrow> string" where
  "Number_toString i = (if i < 0 then CHR ''-'' # digits (nat (- i)) else digits (nat i))"

text \<open>\<open>QuoteJSONString\<close>: the short escapes, \<open>\u00XX\<close> for the other control characters,
  every other character as it is.\<close>

definition quote_char :: "char \<Rightarrow> string" where
  "quote_char c =
     (if c = CHR 0x08 then [CHR 0x5C, CHR ''b'']
      else if c = CHR 0x09 then [CHR 0x5C, CHR ''t'']
      else if c = CHR 0x0A then [CHR 0x5C, CHR ''n'']
      else if c = CHR 0x0C then [CHR 0x5C, CHR ''f'']
      else if c = CHR 0x0D then [CHR 0x5C, CHR ''r'']
      else if c = CHR 0x22 then [CHR 0x5C, CHR 0x22]
      else if c = CHR 0x5C then [CHR 0x5C, CHR 0x5C]
      else if of_char c < (0x20::nat) then
        [CHR 0x5C, CHR ''u'', CHR ''0'', CHR ''0'',
         hex_digit (of_char c div 16), hex_digit (of_char c mod 16)]
      else [c])"

definition QuoteJSONString :: "string \<Rightarrow> string" where
  "QuoteJSONString s = CHR 0x22 # concat (map quote_char s) @ [CHR 0x22]"

fun join_comma :: "string list \<Rightarrow> string" where
  "join_comma [] = []"
| "join_comma [x] = x"
| "join_comma (x # y # r) = x @ CHR '','' # join_comma (y # r)"

text \<open>
  \<open>SerializeJSONProperty\<close>: \<open>None\<close> is the result \<open>undefined\<close>. An array element that
  serializes to \<open>undefined\<close> is written \<open>null\<close>; an object property that does is left out.
\<close>

primrec SerializeJSONProperty :: "jsval \<Rightarrow> string option" where
  "SerializeJSONProperty JUndefined = None"
| "SerializeJSONProperty JNull = Some ''null''"
| "SerializeJSONProperty (JBool b) = Some (if b then ''true'' else ''false'')"
| "SerializeJSONProperty (JNum n) = Some (Number_toString n)"
| "SerializeJSONProperty (JStr s) = Some (QuoteJSONString s)"
| "SerializeJSONProperty (JArr vs) =
     Some (CHR ''['' #
       join_comma (map (\<lambda>r. case r of None \<Rightarrow> ''null'' | Some t \<Rightarrow> t)
         (map SerializeJSONProperty vs)) @ [CHR '']''])"
| "SerializeJSONProperty (JObj kvs) =
     Some (CHR ''{'' #
       join_comma (concat (map (\<lambda>(k, r). case r of None \<Rightarrow> []
                                  | Some t \<Rightarrow> [QuoteJSONString k @ CHR '':'' # t])
         (map (map_prod id SerializeJSONProperty) kvs))) @ [CHR ''}''])"

text \<open>\<open>JSON.stringify(v)\<close>. The code stringifies objects only; \<open>JSON.stringify(undefined)\<close>
  is \<open>undefined\<close>, which reads \<open>undefined\<close> where a string is expected.\<close>

definition JSON_stringify :: "jsval \<Rightarrow> string" where
  "JSON_stringify v = (case SerializeJSONProperty v of Some t \<Rightarrow> t | None \<Rightarrow> ''undefined'')"

subsection \<open>\<open>JSON.parse\<close>\<close>

definition isJSONWhiteSpace :: "char \<Rightarrow> bool" where
  "isJSONWhiteSpace c = (c = CHR 0x20 \<or> c = CHR 0x09 \<or> c = CHR 0x0A \<or> c = CHR 0x0D)"

definition skip_ws :: "string \<Rightarrow> string" where
  "skip_ws s = dropWhile isJSONWhiteSpace s"

definition isDigit :: "char \<Rightarrow> bool" where
  "isDigit c = (48 \<le> (of_char c :: nat) \<and> (of_char c :: nat) \<le> 57)"

definition hex_value :: "char \<Rightarrow> nat option" where
  "hex_value c =
     (let n = (of_char c :: nat)
      in if 48 \<le> n \<and> n \<le> 57 then Some (n - 48)
         else if 97 \<le> n \<and> n \<le> 102 then Some (n - 87)
         else if 65 \<le> n \<and> n \<le> 70 then Some (n - 55)
         else None)"

text \<open>The code unit of \<open>\uXXXX\<close>. One beyond 255 is no character of this model: it is
  refused.\<close>

definition hex4 :: "char \<Rightarrow> char \<Rightarrow> char \<Rightarrow> char \<Rightarrow> char option" where
  "hex4 a b c d =
     (case (hex_value a, hex_value b, hex_value c, hex_value d) of
        (Some x, Some y, Some z, Some u) \<Rightarrow>
          (let n = ((x * 16 + y) * 16 + z) * 16 + u
           in if n < 256 then Some (char_of n) else None)
      | _ \<Rightarrow> None)"

definition unescape :: "char \<Rightarrow> char option" where
  "unescape e =
     (if e = CHR 0x22 then Some (CHR 0x22)
      else if e = CHR 0x5C then Some (CHR 0x5C)
      else if e = CHR ''/'' then Some (CHR ''/'')
      else if e = CHR ''b'' then Some (CHR 0x08)
      else if e = CHR ''f'' then Some (CHR 0x0C)
      else if e = CHR ''n'' then Some (CHR 0x0A)
      else if e = CHR ''r'' then Some (CHR 0x0D)
      else if e = CHR ''t'' then Some (CHR 0x09)
      else None)"

text \<open>The characters of a string literal after its opening quote, up to the closing
  quote: the string they denote and the rest of the input.\<close>

fun parse_string_chars :: "string \<Rightarrow> (string \<times> string) option" where
  "parse_string_chars [] = None"
| "parse_string_chars (c # r) =
     (if c = CHR 0x22 then Some ([], r)
      else if c = CHR 0x5C then
        (case r of
           [] \<Rightarrow> None
         | e # r1 \<Rightarrow>
             if e = CHR ''u'' then
               (case r1 of
                  x1 # x2 # x3 # x4 # r2 \<Rightarrow>
                    (case hex4 x1 x2 x3 x4 of
                       None \<Rightarrow> None
                     | Some ch \<Rightarrow>
                         (case parse_string_chars r2 of
                            None \<Rightarrow> None
                          | Some (t, r3) \<Rightarrow> Some (ch # t, r3)))
                | _ \<Rightarrow> None)
             else
               (case unescape e of
                  None \<Rightarrow> None
                | Some ch \<Rightarrow>
                    (case parse_string_chars r1 of
                       None \<Rightarrow> None
                     | Some (t, r3) \<Rightarrow> Some (ch # t, r3))))
      else if of_char c < (0x20::nat) then None
      else (case parse_string_chars r of
              None \<Rightarrow> None
            | Some (t, r3) \<Rightarrow> Some (c # t, r3)))"

definition nat_of_digits :: "string \<Rightarrow> nat" where
  "nat_of_digits ds = foldl (\<lambda>n c. 10 * n + (of_char c - 48)) 0 ds"

text \<open>A number literal. The numbers of this model are the integers: a literal with a
  fraction or an exponent is refused.\<close>

definition parse_number :: "string \<Rightarrow> (jsval \<times> string) option" where
  "parse_number s =
     (let (neg, t) = (case s of [] \<Rightarrow> (False, s)
                      | c # r \<Rightarrow> if c = CHR ''-'' then (True, r) else (False, s));
          ds = takeWhile isDigit t;
          r = dropWhile isDigit t
      in if ds = [] \<or> (hd ds = CHR ''0'' \<and> length ds > 1) then None
         else if (case r of [] \<Rightarrow> False
                  | c # _ \<Rightarrow> c = CHR ''.'' \<or> c = CHR ''e'' \<or> c = CHR ''E'') then None
         else Some (JNum (if neg then - int (nat_of_digits ds) else int (nat_of_digits ds)), r))"

text \<open>
  A JSON value at the head of the input, and the rest of the input. The first argument
  bounds the nesting of the calls. A key that comes again in an object replaces the value
  of its first occurrence.
\<close>

fun parse_value :: "nat \<Rightarrow> string \<Rightarrow> (jsval \<times> string) option"
  and parse_elements :: "nat \<Rightarrow> jsval list \<Rightarrow> string \<Rightarrow> (jsval \<times> string) option"
  and parse_members :: "nat \<Rightarrow> (string \<times> jsval) list \<Rightarrow> string \<Rightarrow> (jsval \<times> string) option"
where
  "parse_value 0 s = None"
| "parse_value (Suc n) s =
     (case skip_ws s of
        [] \<Rightarrow> None
      | c # r \<Rightarrow>
          if c = CHR 0x22 then
            (case parse_string_chars r of
               None \<Rightarrow> None
             | Some (t, r1) \<Rightarrow> Some (JStr t, r1))
          else if c = CHR ''{'' then
            (case skip_ws r of
               [] \<Rightarrow> None
             | d # r1 \<Rightarrow> if d = CHR ''}'' then Some (JObj [], r1)
                         else parse_members n [] (d # r1))
          else if c = CHR ''['' then
            (case skip_ws r of
               [] \<Rightarrow> None
             | d # r1 \<Rightarrow> if d = CHR '']'' then Some (JArr [], r1)
                         else parse_elements n [] (d # r1))
          else if take 4 (c # r) = ''true'' then Some (JBool True, drop 4 (c # r))
          else if take 5 (c # r) = ''false'' then Some (JBool False, drop 5 (c # r))
          else if take 4 (c # r) = ''null'' then Some (JNull, drop 4 (c # r))
          else parse_number (c # r))"
| "parse_elements 0 acc s = None"
| "parse_elements (Suc n) acc s =
     (case parse_value n s of
        None \<Rightarrow> None
      | Some (v, r) \<Rightarrow>
          (case skip_ws r of
             [] \<Rightarrow> None
           | c # r1 \<Rightarrow>
               if c = CHR '','' then parse_elements n (acc @ [v]) r1
               else if c = CHR '']'' then Some (JArr (acc @ [v]), r1)
               else None))"
| "parse_members 0 acc s = None"
| "parse_members (Suc n) acc s =
     (case skip_ws s of
        [] \<Rightarrow> None
      | q # r \<Rightarrow>
          if q \<noteq> CHR 0x22 then None
          else
            (case parse_string_chars r of
               None \<Rightarrow> None
             | Some (k, r1) \<Rightarrow>
                 (case skip_ws r1 of
                    [] \<Rightarrow> None
                  | c # r2 \<Rightarrow>
                      if c \<noteq> CHR '':'' then None
                      else
                        (case parse_value n r2 of
                           None \<Rightarrow> None
                         | Some (v, r3) \<Rightarrow>
                             (case skip_ws r3 of
                                [] \<Rightarrow> None
                              | d # r4 \<Rightarrow>
                                  if d = CHR '','' then
                                    parse_members n (AList.update k v acc) r4
                                  else if d = CHR ''}'' then
                                    Some (JObj (AList.update k v acc), r4)
                                  else None)))))"

text \<open>\<open>JSON.parse(s)\<close>: the value of the whole input, or a SyntaxError. Twice the length
  of the input bounds the nesting of the calls: a larger bound gives the same result
  (lemma \<open>parse_value_fuel\<close>).\<close>

definition JSON_parse :: "string \<Rightarrow> exn + jsval" where
  "JSON_parse s =
     (case parse_value (Suc (length s + length s)) s of
        None \<Rightarrow> Inl SyntaxError
      | Some (v, r) \<Rightarrow> if skip_ws r = [] then Inr v else Inl SyntaxError)"

section \<open>Reality Signatures\<close>

text \<open>The literal type \<open>"1.0"\<close> of the field \<open>version\<close> has one value.\<close>

datatype schema_version = V1_0

definition version_string :: "schema_version \<Rightarrow> string" where
  "version_string v = ''1.0''"

text \<open>The interface \<open>SignaturePayloadFields\<close>, and \<open>RealitySignature\<close>, which adds the
  signature and the public key to it.\<close>

record SignaturePayloadFields =
  version :: schema_version
  document_hash :: string
  intent_hash :: string
  intent_text :: string
  approver_id :: string
  approver_name :: string
  timestamp :: int
  presence_proof_id :: string
  presence_proof_hash :: string
  ai_flag :: bool

record RealitySignature = SignaturePayloadFields +
  signature :: string
  public_key :: string

text \<open>The interface \<open>RealitySignatureParams\<close>; the fields carry the prefix \<open>p_\<close>. The
  optional \<open>ai_flag\<close> is an option.\<close>

record RealitySignatureParams =
  p_document_hash :: string
  p_intent_hash :: string
  p_intent_text :: string
  p_approver_id :: string
  p_approver_name :: string
  p_timestamp :: int
  p_presence_proof_id :: string
  p_presence_proof_hash :: string
  p_ai_flag :: "bool option"

subsection \<open>The signed payload\<close>

definition buildSignaturePayload :: "SignaturePayloadFields \<Rightarrow> string" where
  "buildSignaturePayload flds =
     (let payload = JObj
        [(''v'', JStr (version_string (version flds))),
         (''dh'', JStr (document_hash flds)),
         (''ih'', JStr (intent_hash flds)),
         (''it'', JStr (intent_text flds)),
         (''ai'', JStr (approver_id flds)),
         (''an'', JStr (approver_name flds)),
         (''ts'', JNum (timestamp flds)),
         (''pp'', JStr (presence_proof_id flds)),
         (''pph'', JStr (presence_proof_hash flds)),
         (''af'', JBool (ai_flag flds))]
      in JSON_stringify payload)"

definition extractPayloadFields :: "RealitySignature \<Rightarrow> SignaturePayloadFields" where
  "extractPayloadFields sig =
     \<lparr>version = version sig,
      document_hash = document_hash sig,
      intent_hash = intent_hash sig,
      intent_text = intent_text sig,
      approver_id = approver_id sig,
      approver_name = approver_name sig,
      timestamp = timestamp sig,
      presence_proof_id = presence_proof_id sig,
      presence_proof_hash = presence_proof_hash sig,
      ai_flag = ai_flag sig\<rparr>"

subsection \<open>Signing\<close>

definition sign :: "externals \<Rightarrow> string \<Rightarrow> byte list \<Rightarrow> exn + string" where
  "sign lib payload privateKey =
     (let messageBytes = utf8_encode lib payload
      in case ed_sign lib messageBytes privateKey of
           Inl e \<Rightarrow> Inl e
         | Inr signatureBytes \<Rightarrow> Inr (base64_encode lib signatureBytes))"

text \<open>\<open>verify\<close> of the signing module, which the verifier imports as \<open>verifySignature\<close>:
  whatever is thrown inside the \<open>try\<close> is caught and the result is \<open>false\<close>.\<close>

definition verifySignature :: "externals \<Rightarrow> string \<Rightarrow> string \<Rightarrow> string \<Rightarrow> bool" where
  "verifySignature lib payload sig publicKey =
     (let messageBytes = utf8_encode lib payload;
          signatureBytes = base64_decode lib sig;
          publicKeyBytes = base64_decode lib publicKey
      in case ed_verify lib signatureBytes messageBytes publicKeyBytes of
           Inl e \<Rightarrow> False
         | Inr b \<Rightarrow> b)"

definition createRealitySignature ::
  "externals \<Rightarrow> RealitySignatureParams \<Rightarrow> byte list \<Rightarrow> exn + RealitySignature" where
  "createRealitySignature lib params privateKey =
     (let payloadFields =
            \<lparr>version = V1_0,
             document_hash = p_document_hash params,
             intent_hash = p_intent_hash params,
             intent_text = p_intent_text params,
             approver_id = p_approver_id params,
             approver_name = p_approver_name params,
             timestamp = p_timestamp params,
             presence_proof_id = p_presence_proof_id params,
             presence_proof_hash = p_presence_proof_hash params,
             ai_flag = (case p_ai_flag params of None \<Rightarrow> False | Some b \<Rightarrow> b)\<rparr>;
          payload = buildSignaturePayload payloadFields
      in case sign lib payload privateKey of
           Inl e \<Rightarrow> Inl e
         | Inr sig \<Rightarrow>
             (case ed_getPublicKey lib privateKey of
                Inl e \<Rightarrow> Inl e
              | Inr publicKeyBytes \<Rightarrow>
                  (let publicKey = base64_encode lib publicKeyBytes
                   in Inr \<lparr>version = V1_0,
                           document_hash = p_document_hash params,
                           intent_hash = p_intent_hash params,
                           intent_text = p_intent_text params,
                           approver_id = p_approver_id params,
                           approver_name = p_approver_name params,
                           timestamp = p_timestamp params,
                           presence_proof_id = p_presence_proof_id params,
                           presence_proof_hash = p_presence_proof_hash params,
                           ai_flag = (case p_ai_flag params of None \<Rightarrow> False | Some b \<Rightarrow> b),
                           signature = sig,
                           public_key = publicKey\<rparr>)))"

subsection \<open>Serialization\<close>

text \<open>A \<open>RealitySignature\<close> as the object it is at run time.\<close>

definition RealitySignature_object :: "RealitySignature \<Rightarrow> jsval" where
  "RealitySignature_object sig = JObj
     [(''version'', JStr (version_string (version sig))),
      (''document_hash'', JStr (document_hash sig)),
      (''intent_hash'', JStr (intent_hash sig)),
      (''intent_text'', JStr (intent_text sig)),
      (''approver_id'', JStr (approver_id sig)),
      (''approver_name'', JStr (approver_name sig)),
      (''timestamp'', JNum (timestamp sig)),
      (''presence_proof_id'', JStr (presence_proof_id sig)),
      (''presence_proof_hash'', JStr (presence_proof_hash sig)),
      (''ai_flag'', JBool (ai_flag sig)),
      (''signature'', JStr (signature sig)),
      (''public_key'', JStr (public_key sig))]"

definition serializeRealitySignature :: "RealitySignature \<Rightarrow> string" where
  "serializeRealitySignature sig =
     (let serialized = JObj
        [(''v'', JStr (version_string (version sig))),
         (''dh'', JStr (document_hash sig)),
         (''ih'', JStr (intent_hash sig)),
         (''it'', JStr (intent_text sig)),
         (''ai'', JStr (approver_id sig)),
         (''an'', JStr (approver_name sig)),
         (''ts'', JNum (timestamp sig)),
         (''pp'', JStr (presence_proof_id sig)),
         (''pph'', JStr (presence_proof_hash sig)),
         (''af'', JBool (ai_flag sig)),
         (''sg'', JStr (signature sig)),
         (''pk'', JStr (public_key sig))]
      in JSON_stringify serialized)"

text \<open>
  The declared result type is \<open>RealitySignature\<close>, but nothing except \<open>v\<close> is checked: the
  result is the object built from whatever the parsed value holds.
\<close>

definition deserializeRealitySignature :: "string \<Rightarrow> exn + jsval" where
  "deserializeRealitySignature json =
     (case JSON_parse json of
        Inl e \<Rightarrow> Inl e
      | Inr parsed \<Rightarrow>
          (case get_property parsed ''v'' of
             Inl e \<Rightarrow> Inl e
           | Inr v \<Rightarrow>
               if v \<noteq> JStr ''1.0'' then Inl (Error ''Invalid signature version'')
               else Inr (JObj
                 [(''version'', property parsed ''v''),
                  (''document_hash'', property parsed ''dh''),
                  (''intent_hash'', property parsed ''ih''),
                  (''intent_text'', property parsed ''it''),
                  (''approver_id'', property parsed ''ai''),
                  (''approver_name'', property parsed ''an''),
                  (''timestamp'', property parsed ''ts''),
                  (''presence_proof_id'', property parsed ''pp''),
                  (''presence_proof_hash'', property parsed ''pph''),
                  (''ai_flag'', property parsed ''af''),
                  (''signature'', property parsed ''sg''),
                  (''public_key'', property parsed ''pk'')])))"

text \<open>\<open>parseSignature\<close> of the verification endpoint.\<close>

definition parseSignature :: "string \<Rightarrow> exn + jsval" where
  "parseSignature json =
     (case JSON_parse json of
        Inl e \<Rightarrow> Inl e
      | Inr parsed \<Rightarrow>
          (case has_property ''v'' parsed of
             Inl e \<Rightarrow> Inl e
           | Inr has_v \<Rightarrow>
               (case (if has_v then has_property ''version'' parsed else Inr True) of
                  Inl e \<Rightarrow> Inl e
                | Inr has_version \<Rightarrow>
                    if has_v \<and> \<not> has_version then
                      Inr (JObj
                        [(''version'', property parsed ''v''),
                         (''document_hash'', property parsed ''dh''),
                         (''intent_hash'', property parsed ''ih''),
                         (''intent_text'', property parsed ''it''),
                         (''approver_id'', property parsed ''ai''),
                         (''approver_name'', property parsed ''an''),
                         (''timestamp'', property parsed ''ts''),
                         (''presence_proof_id'', property parsed ''pp''),
                         (''presence_proof_hash'', property parsed ''pph''),
                         (''ai_flag'', property parsed ''af''),
                         (''signature'', property parsed ''sg''),
                         (''public_key'', property parsed ''pk'')])
                    else Inr parsed)))"

section \<open>Verification\<close>

datatype VerificationResult =
    VerificationSuccess string string int bool
  | VerificationFailureDocumentAltered string string
  | VerificationFailureInvalidSignature
  | VerificationFailureMalformed

text \<open>The fields \<open>valid\<close>, \<open>error\<close> and \<open>document_integrity\<close> of a result; a success has
  no \<open>error\<close>.\<close>

fun valid :: "VerificationResult \<Rightarrow> bool" where
  "valid (VerificationSuccess i n t a) = True"
| "valid r = False"

fun error :: "VerificationResult \<Rightarrow> string option" where
  "error (VerificationSuccess i n t a) = None"
| "error (VerificationFailureDocumentAltered c e) = Some ''document_altered''"
| "error VerificationFailureInvalidSignature = Some ''signature_not_authentic''"
| "error VerificationFailureMalformed = Some ''invalid_signature_format''"

fun document_integrity :: "VerificationResult \<Rightarrow> string" where
  "document_integrity (VerificationSuccess i n t a) = ''intact''"
| "document_integrity (VerificationFailureDocumentAltered c e) = ''altered''"
| "document_integrity VerificationFailureInvalidSignature = ''unknown''"
| "document_integrity VerificationFailureMalformed = ''unknown''"

text \<open>\<open>/^[0-9a-f]{64}$/.test(s)\<close>\<close>

definition isHex64 :: "string \<Rightarrow> bool" where
  "isHex64 s = (length s = 64 \<and> list_all (\<lambda>c. c \<in> set ''0123456789abcdef'') s)"

definition isNonEmptyString :: "jsval \<Rightarrow> bool" where
  "isNonEmptyString v = (case v of JStr s \<Rightarrow> length s \<noteq> 0 | _ \<Rightarrow> False)"

definition isHex64String :: "jsval \<Rightarrow> bool" where
  "isHex64String v = (case v of JStr s \<Rightarrow> isHex64 s | _ \<Rightarrow> False)"

text \<open>
  The type guard. \<open>isNonEmptyString v\<close> is \<open>typeof v === 'string'\<close> and \<open>v.length !== 0\<close>;
  \<open>isHex64String v\<close> is \<open>typeof v === 'string'\<close> and the test of the regular expression.
  Every number of this model is an integer, so that \<open>Number.isInteger\<close> holds of it.
\<close>

definition isValidSignatureFormat :: "jsval \<Rightarrow> bool" where
  "isValidSignatureFormat sig =
     (if typeof sig \<noteq> ''object'' \<or> sig = JNull then False
      else if property sig ''version'' \<noteq> JStr ''1.0'' then False
      else if \<not> isHex64String (property sig ''document_hash'') then False
      else if \<not> isHex64String (property sig ''intent_hash'') then False
      else if \<not> isNonEmptyString (property sig ''intent_text'') then False
      else if \<not> isNonEmptyString (property sig ''approver_id'') then False
      else if \<not> isNonEmptyString (property sig ''approver_name'') then False
      else if (case property sig ''timestamp'' of JNum n \<Rightarrow> n \<le> 0 | _ \<Rightarrow> True) then False
      else if \<not> isNonEmptyString (property sig ''presence_proof_id'') then False
      else if \<not> isHex64String (property sig ''presence_proof_hash'') then False
      else if typeof (property sig ''ai_flag'') \<noteq> ''boolean'' then False
      else if \<not> isNonEmptyString (property sig ''signature'') then False
      else if \<not> isNonEmptyString (property sig ''public_key'') then False
      else True)"

text \<open>
  What the guard narrows the value to: after it has passed, the code reads the fields at
  their declared types.
\<close>

definition string_of :: "jsval \<Rightarrow> string" where
  "string_of v = (case v of JStr s \<Rightarrow> s | _ \<Rightarrow> [])"

definition number_of :: "jsval \<Rightarrow> int" where
  "number_of v = (case v of JNum n \<Rightarrow> n | _ \<Rightarrow> 0)"

definition boolean_of :: "jsval \<Rightarrow> bool" where
  "boolean_of v = (case v of JBool b \<Rightarrow> b | _ \<Rightarrow> False)"

definition asRealitySignature :: "jsval \<Rightarrow> RealitySignature" where
  "asRealitySignature v =
     \<lparr>version = V1_0,
      document_hash = string_of (property v ''document_hash''),
      intent_hash = string_of (property v ''intent_hash''),
      intent_text = string_of (property v ''intent_text''),
      approver_id = string_of (property v ''approver_id''),
      approver_name = string_of (property v ''approver_name''),
      timestamp = number_of (property v ''timestamp''),
      presence_proof_id = string_of (property v ''presence_proof_id''),
      presence_proof_hash = string_of (property v ''presence_proof_hash''),
      ai_flag = boolean_of (property v ''ai_flag''),
      signature = string_of (property v ''signature''),
      public_key = string_of (property v ''public_key'')\<rparr>"

definition verify :: "externals \<Rightarrow> byte list \<Rightarrow> jsval \<Rightarrow> VerificationResult" where
  "verify lib document candidate =
     (if \<not> isValidSignatureFormat candidate then VerificationFailureMalformed
      else
        let sig = asRealitySignature candidate;
            computedHash = hashDocument lib document
        in if computedHash \<noteq> document_hash sig then
             VerificationFailureDocumentAltered computedHash (document_hash sig)
           else
             let payloadFields = extractPayloadFields sig;
                 payload = buildSignaturePayload payloadFields;
                 isSignatureValid = verifySignature lib payload (signature sig) (public_key sig)
             in if \<not> isSignatureValid then VerificationFailureInvalidSignature
                else VerificationSuccess (approver_id sig) (approver_name sig) (timestamp sig)
                       (ai_flag sig))"

section \<open>Assumptions on the platform\<close>

text \<open>
  What the theorems on signing and verification assume of the platform functions:
  \<^item> Ed25519 is correct: a signature made with a private key is not empty, the public key of
    that private key is not empty, and the signature verifies for the signed message under
    that public key;
  \<^item> Ed25519 binds the message: such a signature verifies for no other message;
  \<^item> base64 decoding inverts base64 encoding, and decodes the empty string to no bytes;
  \<^item> a private key is valid when signing with it and deriving its public key return.
\<close>

definition ed25519_correct :: "externals \<Rightarrow> bool" where
  "ed25519_correct lib =
     (\<forall>m sk s pk. ed_sign lib m sk = Inr s \<and> ed_getPublicKey lib sk = Inr pk \<longrightarrow>
        s \<noteq> [] \<and> pk \<noteq> [] \<and> ed_verify lib s m pk = Inr True)"

definition ed25519_binding :: "externals \<Rightarrow> bool" where
  "ed25519_binding lib =
     (\<forall>m m' sk s pk. ed_sign lib m sk = Inr s \<and> ed_getPublicKey lib sk = Inr pk \<and>
        ed_verify lib s m' pk = Inr True \<longrightarrow> m' = m)"

definition base64_roundtrip :: "externals \<Rightarrow> bool" where
  "base64_roundtrip lib =
     ((\<forall>b. base64_decode lib (base64_encode lib b) = b) \<and> base64_decode lib [] = [])"

definition valid_private_key :: "externals \<Rightarrow> byte list \<Rightarrow> bool" where
  "valid_private_key lib sk =
     ((\<forall>m. \<exists>s. ed_sign lib m sk = Inr s) \<and> (\<exists>pk. ed_getPublicKey lib sk = Inr pk))"

text \<open>The format constraints of the verifier, on the parameters of a signature and on a
  signature.\<close>

definition wellformed_params :: "RealitySignatureParams \<Rightarrow> bool" where
  "wellformed_params p =
     (isHex64 (p_document_hash p) \<and> isHex64 (p_intent_hash p) \<and> p_intent_text p \<noteq> [] \<and>
      p_approver_id p \<noteq> [] \<and> p_approver_name p \<noteq> [] \<and> 0 < p_timestamp p \<and>
      p_presence_proof_id p \<noteq> [] \<and> isHex64 (p_presence_proof_hash p))"

definition wellformed_signature :: "RealitySignature \<Rightarrow> bool" where
  "wellformed_signature r =
     (isHex64 (document_hash r) \<and> isHex64 (intent_hash r) \<and> intent_text r \<noteq> [] \<and>
      approver_id r \<noteq> [] \<and> approver_name r \<noteq> [] \<and> 0 < timestamp r \<and>
      presence_proof_id r \<noteq> [] \<and> isHex64 (presence_proof_hash r) \<and>
      signature r \<noteq> [] \<and> public_key r \<noteq> [])"

section \<open>Auxiliary notions of the proofs\<close>

text \<open>A string in which every run of white space other than LF is one space.\<close>

fun collapsed :: "string \<Rightarrow> bool" where
  "collapsed [] = True"
| "collapsed [c] = (isInlineSpace c \<longrightarrow> c = CHR 0x20)"
| "collapsed (c # d # r) =
     ((isInlineSpace c \<longrightarrow> c = CHR 0x20 \<and> \<not> isInlineSpace d) \<and> collapsed (d # r))"

text \<open>What may follow a number literal, and what follows a member of an object.\<close>

definition number_end :: "string \<Rightarrow> bool" where
  "number_end r = (case r of [] \<Rightarrow> True
     | c # _ \<Rightarrow> \<not> isDigit c \<and> c \<noteq> CHR ''.'' \<and> c \<noteq> CHR ''e'' \<and> c \<noteq> CHR ''E'')"

definition member_end :: "string \<Rightarrow> bool" where
  "member_end r = (case r of [] \<Rightarrow> False | c # _ \<Rightarrow> c = CHR '','' \<or> c = CHR ''}'')"

text \<open>The values without parts, and the text of a member of an object.\<close>

definition primitive :: "jsval \<Rightarrow> bool" where
  "primitive v = (case v of JNull \<Rightarrow> True | JBool _ \<Rightarrow> True | JNum _ \<Rightarrow> True | JStr _ \<Rightarrow> True
                  | _ \<Rightarrow> False)"

definition member_text :: "string \<times> jsval \<Rightarrow> string" where
  "member_text kv = QuoteJSONString (fst kv) @ CHR '':'' #
     (case SerializeJSONProperty (snd kv) of None \<Rightarrow> [] | Some t \<Rightarrow> t)"

text \<open>An object copied with one property set, as in \<open>{...x, k: v}\<close>.\<close>

fun with_property :: "jsval \<Rightarrow> string \<Rightarrow> jsval \<Rightarrow> jsval" where
  "with_property (JObj kvs) k v = JObj (AList.update k v kvs)"
| "with_property x k v = JObj [(k, v)]"

text \<open>The names of the fields that the payload holds.\<close>

definition signed_fields :: "string list" where
  "signed_fields =
     [''version'', ''document_hash'', ''intent_hash'', ''intent_text'', ''approver_id'',
      ''approver_name'', ''timestamp'', ''presence_proof_id'', ''presence_proof_hash'',
      ''ai_flag'']"

section \<open>A small instance\<close>

text \<open>
  Platform functions that meet the assumptions, for the examples: the digest is 64 times
  the hexadecimal digit of the length of the input, a character is encoded as one byte and a
  byte as one character, a signature is a zero byte, the private key and the message, and a
  public key is a one byte and the private key. Verification throws on a signature that
  does not start with a zero byte.
\<close>

definition toy_lib :: externals where
  "toy_lib =
     \<lparr>normalize_NFC = (\<lambda>s. s),
      sha256_hex = (\<lambda>b. replicate 64 (hex_digit (length b mod 16))),
      utf8_encode = map (\<lambda>c. of_nat (of_char c)),
      base64_encode = map (\<lambda>b. char_of (unat b)),
      base64_decode = map (\<lambda>c. of_nat (of_char c)),
      ed_sign = (\<lambda>m sk. Inr (0 # sk @ m)),
      ed_getPublicKey = (\<lambda>sk. Inr (1 # sk)),
      ed_verify = (\<lambda>s m pk. if s = [] \<or> hd s \<noteq> 0 then Inl (Error ''invalid signature'')
                              else Inr (s = 0 # tl pk @ m))\<rparr>"

definition toy_world :: world where
  "toy_world = \<lparr>clock = (\<lambda>n. 1000 + int n), uuids = (\<lambda>n. if n = 0 then ''id-0'' else ''id-1'')\<rparr>"

definition toy_session :: ApprovalSession where
  "toy_session =
     \<lparr>s_id = ''s1'', s_secure_token = ''t1'', s_document_hash = ''dh'',
      s_document_path = ''/uploads/test.pdf'', s_document_name = ''test.pdf'',
      s_intent_text = ''Approve X'', s_intent_hash = ''ih'', s_status = pending,
      s_created_at = 900, s_expires_at = 2000, s_approved_at = None,
      s_signature_id = None\<rparr>"

definition toy_document :: "byte list" where
  "toy_document = [104, 101, 108, 108, 111]"

definition toy_key :: "byte list" where
  "toy_key = [7]"

definition toy_params :: RealitySignatureParams where
  "toy_params =
     \<lparr>p_document_hash = replicate 64 (CHR ''5''),
      p_intent_hash = replicate 64 (CHR ''a''),
      p_intent_text = ''Approve X'',
      p_approver_id = ''user-123'',
      p_approver_name = ''Test User'',
      p_timestamp = 1234567890123,
      p_presence_proof_id = ''proof-456'',
      p_presence_proof_hash = replicate 64 (CHR ''b''),
      p_ai_flag = Some True\<rparr>"

definition toy_signature :: RealitySignature where
  "toy_signature =
     \<lparr>version = V1_0,
      document_hash = replicate 64 (CHR ''5''),
      intent_hash = replicate 64 (CHR ''a''),
      intent_text = ''Approve X'',
      approver_id = ''user-123'',
      approver_name = ''Test User'',
      timestamp = 1234567890123,
      presence_proof_id = ''proof-456'',
      presence_proof_hash = replicate 64 (CHR ''b''),
      ai_flag = True,
      signature = ''AAAA'',
      public_key = ''BBBB''\<rparr>"

section \<open>Intent canonicalization\<close>

lemma space_inline [simp]: "isInlineSpace (CHR 0x20)"
  by (simp add: isInlineSpace_def isWhiteSpace_def)

lemma collapse_first:
  "s \<noteq> [] \<Longrightarrow> \<not> isInlineSpace (hd s) \<Longrightarrow> \<exists>t. collapse_whitespace s = hd s # t"
  by (cases s) auto

lemma collapsed_Cons:
  "collapsed (c # r) \<longleftrightarrow>
     (isInlineSpace c \<longrightarrow> c = CHR 0x20 \<and> (r = [] \<or> \<not> isInlineSpace (hd r))) \<and> collapsed r"
  by (cases r) auto

lemma collapsed_collapse: "collapsed (collapse_whitespace s)"
proof (induction s rule: collapse_whitespace.induct)
  case 1
  show ?case by simp
next
  case (2 c r)
  show ?case
  proof (cases "isInlineSpace c")
    case True
    let ?d = "dropWhile isInlineSpace r"
    have ih: "collapsed (collapse_whitespace ?d)" using 2(1) True by simp
    have "collapse_whitespace ?d = [] \<or> \<not> isInlineSpace (hd (collapse_whitespace ?d))"
    proof (cases "?d = []")
      case True
      then have "collapse_whitespace ?d = []" by (simp only: collapse_whitespace.simps)
      then show ?thesis by (rule disjI1)
    next
      case False
      then have "\<not> isInlineSpace (hd ?d)" by (rule hd_dropWhile)
      with False obtain t where "collapse_whitespace ?d = hd ?d # t"
        using collapse_first by blast
      with \<open>\<not> isInlineSpace (hd ?d)\<close> show ?thesis by simp
    qed
    with ih True show ?thesis by (simp add: collapsed_Cons)
  next
    case False
    with 2(2) show ?thesis by (simp add: collapsed_Cons)
  qed
qed

lemma collapse_collapsed: "collapsed s \<Longrightarrow> collapse_whitespace s = s"
proof (induction s rule: collapse_whitespace.induct)
  case 1
  show ?case by simp
next
  case (2 c r)
  from 2(3) have r: "collapsed r" by (simp add: collapsed_Cons)
  show ?case
  proof (cases "isInlineSpace c")
    case True
    with 2(3) have c: "c = CHR 0x20" and hd: "r = [] \<or> \<not> isInlineSpace (hd r)"
      by (simp_all add: collapsed_Cons)
    from hd have "dropWhile isInlineSpace r = r" by (simp add: dropWhile_eq_self_iff)
    with 2(1) True r c show ?thesis by simp
  next
    case False
    with 2(2) r show ?thesis by simp
  qed
qed

lemma collapsed_dropWhile: "collapsed s \<Longrightarrow> collapsed (dropWhile P s)"
  by (induction s) (auto simp: collapsed_Cons)

lemma collapsed_prefix: "collapsed (xs @ ys) \<Longrightarrow> collapsed xs"
proof (induction xs)
  case Nil
  show ?case by simp
next
  case (Cons x xs)
  then show ?case by (cases xs) (auto simp: collapsed_Cons)
qed

lemma rev_dropWhile_rev_prefix:
  "xs = rev (dropWhile P (rev xs)) @ rev (takeWhile P (rev xs))"
proof -
  have "rev (takeWhile P (rev xs) @ dropWhile P (rev xs)) = rev (rev xs)"
    by (simp only: takeWhile_dropWhile_id)
  then show ?thesis by (simp only: rev_append rev_rev_ident)
qed

lemma collapsed_trim: "collapsed s \<Longrightarrow> collapsed (trim s)"
proof -
  assume "collapsed s"
  then have d: "collapsed (dropWhile isWhiteSpace s)" by (rule collapsed_dropWhile)
  have "dropWhile isWhiteSpace s = trim s @ rev (takeWhile isWhiteSpace (rev (dropWhile isWhiteSpace s)))"
    unfolding trim_def by (rule rev_dropWhile_rev_prefix)
  with d show ?thesis by (metis collapsed_prefix)
qed

lemma trim_trimmed:
  "s = [] \<or> (\<not> isWhiteSpace (hd s) \<and> \<not> isWhiteSpace (last s)) \<Longrightarrow> trim s = s"
proof (cases "s = []")
  case True
  then show ?thesis by (simp add: trim_def)
next
  case False
  assume "s = [] \<or> (\<not> isWhiteSpace (hd s) \<and> \<not> isWhiteSpace (last s))"
  with False have h: "\<not> isWhiteSpace (hd s)" and l: "\<not> isWhiteSpace (last s)" by simp_all
  from h have 1: "dropWhile isWhiteSpace s = s" by (simp add: dropWhile_eq_self_iff)
  from l False have "\<not> isWhiteSpace (hd (rev s))" by (simp add: hd_rev)
  then have 2: "dropWhile isWhiteSpace (rev s) = rev s" by (simp add: dropWhile_eq_self_iff)
  show ?thesis by (simp add: trim_def 1 2)
qed

lemma trimmed_trim:
  "trim s = [] \<or> (\<not> isWhiteSpace (hd (trim s)) \<and> \<not> isWhiteSpace (last (trim s)))"
proof (cases "trim s = []")
  case True
  then show ?thesis by simp
next
  case False
  let ?u = "dropWhile isWhiteSpace s"
  let ?v = "dropWhile isWhiteSpace (rev ?u)"
  from False have v: "?v \<noteq> []" by (simp add: trim_def)
  then have "\<not> isWhiteSpace (hd ?v)" by (rule hd_dropWhile)
  with v have l: "\<not> isWhiteSpace (last (trim s))" by (simp add: trim_def last_rev)
  have u: "?u \<noteq> []"
  proof
    assume "?u = []"
    then have "?v = []" by (simp only: rev.simps dropWhile.simps)
    with v show False by (rule notE)
  qed
  then have hu: "\<not> isWhiteSpace (hd ?u)" by (rule hd_dropWhile)
  have "?u = trim s @ rev (takeWhile isWhiteSpace (rev ?u))"
    unfolding trim_def by (rule rev_dropWhile_rev_prefix)
  with False have "hd ?u = hd (trim s)" by (metis hd_append2)
  with hu l show ?thesis by simp
qed

lemma no_cr_replace_crlf: "CHR 0x0D \<notin> set s \<Longrightarrow> replace_crlf s = s"
  by (induction s rule: replace_crlf.induct) auto

lemma no_cr_replace_cr: "CHR 0x0D \<notin> set s \<Longrightarrow> replace_cr s = s"
  by (induction s) (auto simp: replace_cr_def)

lemma cr_inline [simp]: "isInlineSpace (CHR 0x0D)"
  by (simp add: isInlineSpace_def isWhiteSpace_def)

lemma set_collapse: "set (collapse_whitespace s) \<subseteq> insert (CHR 0x20) {c \<in> set s. \<not> isInlineSpace c}"
proof (induction s rule: collapse_whitespace.induct)
  case 1
  show ?case by simp
next
  case (2 c r)
  show ?case
  proof (cases "isInlineSpace c")
    case True
    with 2(1) have "set (collapse_whitespace (dropWhile isInlineSpace r))
       \<subseteq> insert (CHR 0x20) {c \<in> set (dropWhile isInlineSpace r). \<not> isInlineSpace c}" by simp
    with True show ?thesis by (auto dest: set_dropWhileD)
  next
    case False
    with 2(2) show ?thesis by auto
  qed
qed

lemma collapse_no_cr: "CHR 0x0D \<notin> set (collapse_whitespace s)"
  using set_collapse [of s] by auto

lemma set_trim: "set (trim s) \<subseteq> set s"
  by (metis set_dropWhileD set_rev subsetI trim_def)

lemma whitespace_steps_idem:
  "trim (collapse_whitespace (replace_cr (replace_crlf
     (trim (collapse_whitespace (replace_cr (replace_crlf s))))))) =
   trim (collapse_whitespace (replace_cr (replace_crlf s)))"
proof -
  let ?c = "collapse_whitespace (replace_cr (replace_crlf s))"
  let ?t = "trim ?c"
  have nocr: "CHR 0x0D \<notin> set ?t" using collapse_no_cr set_trim by blast
  have col: "collapsed ?t" by (rule collapsed_trim) (rule collapsed_collapse)
  have "trim (collapse_whitespace (replace_cr (replace_crlf ?t))) = trim (collapse_whitespace ?t)"
    using nocr by (simp add: no_cr_replace_crlf no_cr_replace_cr)
  also have "\<dots> = trim ?t" using col by (simp add: collapse_collapsed)
  also have "\<dots> = ?t" by (rule trim_trimmed) (rule trimmed_trim)
  finally show ?thesis .
qed

text \<open>
  Claim C6. Intent canonicalization is idempotent: canonicalizing a canonical text gives
  that text again. Unicode normalization is a parameter of the model: it is assumed to be
  idempotent, and the white-space steps are assumed to keep a normalized string normalized.
\<close>
theorem canonicalizeIntent_idempotent:
  assumes "\<forall>s. normalize_NFC lib (normalize_NFC lib s) = normalize_NFC lib s"
    and "\<forall>s. normalize_NFC lib s = s \<longrightarrow>
           normalize_NFC lib (trim (collapse_whitespace (replace_cr (replace_crlf s)))) =
           trim (collapse_whitespace (replace_cr (replace_crlf s)))"
  shows "canonicalizeIntent lib (canonicalizeIntent lib t) = canonicalizeIntent lib t"
proof -
  let ?n = "normalize_NFC lib t"
  from assms(1) have "normalize_NFC lib ?n = ?n" by simp
  with assms(2) have "normalize_NFC lib (canonicalizeIntent lib t) = canonicalizeIntent lib t"
    by (simp add: canonicalizeIntent_def)
  then show ?thesis
    unfolding canonicalizeIntent_def by (simp add: whitespace_steps_idem)
qed

theorem canonicalizeIntent_idempotent_witness:
  "canonicalizeIntent toy_lib
     [CHR 0x20, CHR ''A'', CHR 0x0D, CHR 0x0A, CHR 0x09, CHR 0x20, CHR ''X'', CHR 0x0D, CHR 0x20]
     = [CHR ''A'', CHR 0x0A, CHR 0x20, CHR ''X''] \<and>
   canonicalizeIntent toy_lib (canonicalizeIntent toy_lib
     [CHR 0x20, CHR ''A'', CHR 0x0D, CHR 0x0A, CHR 0x09, CHR 0x20, CHR ''X'', CHR 0x0D, CHR 0x20])
     = [CHR ''A'', CHR 0x0A, CHR 0x20, CHR ''X'']"
proof -
  have 1: "\<forall>s. normalize_NFC toy_lib (normalize_NFC toy_lib s) = normalize_NFC toy_lib s"
    by (simp add: toy_lib_def)
  have 2: "\<forall>s. normalize_NFC toy_lib s = s \<longrightarrow>
           normalize_NFC toy_lib (trim (collapse_whitespace (replace_cr (replace_crlf s)))) =
           trim (collapse_whitespace (replace_cr (replace_crlf s)))"
    by (simp add: toy_lib_def)
  have 3: "canonicalizeIntent toy_lib
     [CHR 0x20, CHR ''A'', CHR 0x0D, CHR 0x0A, CHR 0x09, CHR 0x20, CHR ''X'', CHR 0x0D, CHR 0x20]
     = [CHR ''A'', CHR 0x0A, CHR 0x20, CHR ''X'']"
    by (simp add: canonicalizeIntent_def toy_lib_def replace_cr_def trim_def isInlineSpace_def
        isWhiteSpace_def)
  from canonicalizeIntent_idempotent [OF 1 2,
      of "[CHR 0x20, CHR ''A'', CHR 0x0D, CHR 0x0A, CHR 0x09, CHR 0x20, CHR ''X'', CHR 0x0D, CHR 0x20]"]
  show ?thesis by (simp add: 3)
qed

section \<open>The bound of the parser is large enough\<close>

lemma skip_ws_Cons_length: "skip_ws s = c # r \<Longrightarrow> length r < length s"
proof -
  assume a: "skip_ws s = c # r"
  have "length (skip_ws s) \<le> length s" unfolding skip_ws_def by (rule length_dropWhile_le)
  with a show ?thesis by simp
qed

lemma parse_string_chars_length:
  "parse_string_chars s = Some (t, r) \<Longrightarrow> length r < length s"
proof (induction s arbitrary: t r rule: parse_string_chars.induct)
  case 1
  then show ?case by simp
next
  case (2 c s)
  show ?case
  proof (cases "c = CHR 0x22")
    case True
    with 2(4) show ?thesis by simp
  next
    case nq: False
    show ?thesis
    proof (cases "c = CHR 0x5C")
      case True
      show ?thesis
      proof (cases s)
        case Nil
        with 2(4) nq True show ?thesis by simp
      next
        case (Cons e r1)
        show ?thesis
        proof (cases "e = CHR ''u''")
          case u: True
          show ?thesis
          proof (cases r1 rule: parse_string_chars.cases)
            case 1
            with 2(4) nq True Cons u show ?thesis by simp
          next
            case (2 x1 l1)
            note r1 = this
            show ?thesis
            proof (cases l1)
              case Nil
              with "2.prems" nq True Cons u r1 show ?thesis by simp
            next
              case c2: (Cons x2 l2)
              show ?thesis
              proof (cases l2)
                case Nil
                with "2.prems" nq True Cons u r1 c2 show ?thesis by simp
              next
                case c3: (Cons x3 l3)
                show ?thesis
                proof (cases l3)
                  case Nil
                  with "2.prems" nq True Cons u r1 c2 c3 show ?thesis by simp
                next
                  case c4: (Cons x4 r2)
                  from "2.prems" nq True Cons u r1 c2 c3 c4 obtain ch t' where
                    h: "hex4 x1 x2 x3 x4 = Some ch" and p: "parse_string_chars r2 = Some (t', r)"
                    by (auto split: option.splits)
                  have "length r < length r2"
                    using "2.IH"(1) [OF nq True Cons u _ _ _ _ h p] r1 c2 c3 c4 by simp
                  with Cons r1 c2 c3 c4 show ?thesis by simp
                qed
              qed
            qed
          qed
        next
          case nu: False
          from "2.prems" nq True Cons nu obtain ch t' where
            h: "unescape e = Some ch" and p: "parse_string_chars r1 = Some (t', r)"
            by (auto split: option.splits)
          have "length r < length r1" by (rule "2.IH"(2) [OF nq True Cons nu h p])
          with Cons show ?thesis by simp
        qed
      qed
    next
      case nb: False
      from "2.prems" nq nb obtain t' where
        c: "\<not> of_char c < (0x20::nat)" and p: "parse_string_chars s = Some (t', r)"
        by (auto split: option.splits if_splits)
      have "length r < length s" by (rule "2.IH"(3) [OF nq nb c p])
      then show ?thesis by simp
    qed
  qed
qed

lemma parse_number_length:
  "parse_number s = Some (v, r) \<Longrightarrow> length r < length s"
proof -
  assume a: "parse_number s = Some (v, r)"
  define t where "t = (case s of [] \<Rightarrow> s | c # r \<Rightarrow> if c = CHR ''-'' then r else s)"
  have ts: "length t \<le> length s" by (cases s) (simp_all add: t_def)
  have sp: "(case s of [] \<Rightarrow> (False, s) | c # r \<Rightarrow> if c = CHR ''-'' then (True, r) else (False, s))
      = (s \<noteq> [] \<and> hd s = CHR ''-'', t)"
    by (cases s) (simp_all add: t_def)
  from a have ne: "takeWhile isDigit t \<noteq> []" and r: "r = dropWhile isDigit t"
    unfolding parse_number_def sp by (auto simp: Let_def split: if_splits)
  have "length (takeWhile isDigit t) + length (dropWhile isDigit t) = length t"
    by (metis length_append takeWhile_dropWhile_id)
  with ne r ts show ?thesis by (cases "takeWhile isDigit t") auto
qed

lemma parse_consumes:
  "(\<forall>s v r. parse_value n s = Some (v, r) \<longrightarrow> length r < length s) \<and>
   (\<forall>acc s v r. parse_elements n acc s = Some (v, r) \<longrightarrow> length r < length s) \<and>
   (\<forall>acc s v r. parse_members n acc s = Some (v, r) \<longrightarrow> length r < length s)"
proof (induction n)
  case 0
  show ?case by simp
next
  case (Suc n)
  then have V: "\<And>s v r. parse_value n s = Some (v, r) \<Longrightarrow> length r < length s"
    and E: "\<And>acc s v r. parse_elements n acc s = Some (v, r) \<Longrightarrow> length r < length s"
    and M: "\<And>acc s v r. parse_members n acc s = Some (v, r) \<Longrightarrow> length r < length s"
    by blast+
  have v: "length r < length s" if p: "parse_value (Suc n) s = Some (v, r)" for s v r
  proof (cases "skip_ws s")
    case Nil
    with p show ?thesis by simp
  next
    case (Cons c t)
    note ct = skip_ws_Cons_length [OF Cons]
    consider (str) "c = CHR 0x22" | (obj) "c \<noteq> CHR 0x22" "c = CHR ''{''"
      | (arr) "c \<noteq> CHR 0x22" "c \<noteq> CHR ''{''" "c = CHR ''[''"
      | (other) "c \<noteq> CHR 0x22" "c \<noteq> CHR ''{''" "c \<noteq> CHR ''[''" by blast
    then show ?thesis
    proof cases
      case str
      with p Cons obtain u where "parse_string_chars t = Some (u, r)"
        by (auto split: option.splits)
      then have "length r < length t" by (rule parse_string_chars_length)
      with ct show ?thesis by simp
    next
      case obj
      show ?thesis
      proof (cases "skip_ws t")
        case Nil
        with p Cons obj show ?thesis by simp
      next
        case c2: (Cons d t1)
        note dt = skip_ws_Cons_length [OF c2]
        show ?thesis
        proof (cases "d = CHR ''}''")
          case True
          with p Cons obj c2 have "r = t1" by simp
          with ct dt show ?thesis by simp
        next
          case False
          with p Cons obj c2 have "parse_members n [] (d # t1) = Some (v, r)" by simp
          then have "length r < length (d # t1)" by (rule M)
          with ct dt show ?thesis by simp
        qed
      qed
    next
      case arr
      show ?thesis
      proof (cases "skip_ws t")
        case Nil
        with p Cons arr show ?thesis by simp
      next
        case c2: (Cons d t1)
        note dt = skip_ws_Cons_length [OF c2]
        show ?thesis
        proof (cases "d = CHR '']''")
          case True
          with p Cons arr c2 have "r = t1" by simp
          with ct dt show ?thesis by simp
        next
          case False
          with p Cons arr c2 have "parse_elements n [] (d # t1) = Some (v, r)" by simp
          then have "length r < length (d # t1)" by (rule E)
          with ct dt show ?thesis by simp
        qed
      qed
    next
      case other
      from p Cons other have
        "(take 4 (c # t) = ''true'' \<and> r = drop 4 (c # t)) \<or>
         (take 5 (c # t) = ''false'' \<and> r = drop 5 (c # t)) \<or>
         (take 4 (c # t) = ''null'' \<and> r = drop 4 (c # t)) \<or>
         parse_number (c # t) = Some (v, r)"
        by (simp split: if_splits)
      then show ?thesis
      proof (elim disjE conjE)
        assume "parse_number (c # t) = Some (v, r)"
        then have "length r < length (c # t)" by (rule parse_number_length)
        with ct show ?thesis by simp
      qed (use ct in auto)
    qed
  qed
  have e: "length r < length s" if p: "parse_elements (Suc n) acc s = Some (v, r)" for acc s v r
  proof -
    from p obtain x r0 where x: "parse_value n s = Some (x, r0)"
      by (auto split: option.splits)
    note l0 = V [OF x]
    from p x obtain c r1 where c: "skip_ws r0 = c # r1"
      by (cases "skip_ws r0") auto
    note l1 = skip_ws_Cons_length [OF c]
    from p x c have "(c = CHR '','' \<and> parse_elements n (acc @ [x]) r1 = Some (v, r)) \<or>
        (c = CHR '']'' \<and> r = r1)"
      by (auto split: if_splits)
    then show ?thesis
    proof
      assume "c = CHR '','' \<and> parse_elements n (acc @ [x]) r1 = Some (v, r)"
      then have "length r < length r1" using E by blast
      with l0 l1 show ?thesis by simp
    next
      assume "c = CHR '']'' \<and> r = r1"
      with l0 l1 show ?thesis by simp
    qed
  qed
  have m: "length r < length s" if p: "parse_members (Suc n) acc s = Some (v, r)" for acc s v r
  proof -
    from p obtain q t where q: "skip_ws s = q # t" by (cases "skip_ws s") auto
    note l0 = skip_ws_Cons_length [OF q]
    from p q have qq: "q = CHR 0x22" by (auto split: if_splits)
    from p q qq obtain k r1 where k: "parse_string_chars t = Some (k, r1)"
      by (auto split: option.splits)
    note l1 = parse_string_chars_length [OF k]
    from p q qq k obtain c r2 where c: "skip_ws r1 = c # r2" by (cases "skip_ws r1") auto
    note l2 = skip_ws_Cons_length [OF c]
    from p q qq k c have cc: "c = CHR '':''" by (auto split: if_splits)
    from p q qq k c cc obtain x r3 where x: "parse_value n r2 = Some (x, r3)"
      by (auto split: option.splits)
    note l3 = V [OF x]
    from p q qq k c cc x obtain d r4 where d: "skip_ws r3 = d # r4" by (cases "skip_ws r3") auto
    note l4 = skip_ws_Cons_length [OF d]
    from p q qq k c cc x d have
      "(d = CHR '','' \<and> parse_members n (AList.update k x acc) r4 = Some (v, r)) \<or>
       (d = CHR ''}'' \<and> r = r4)"
      by (auto split: if_splits)
    then show ?thesis
    proof
      assume "d = CHR '','' \<and> parse_members n (AList.update k x acc) r4 = Some (v, r)"
      then have "length r < length r4" using M by blast
      with l0 l1 l2 l3 l4 show ?thesis by simp
    next
      assume "d = CHR ''}'' \<and> r = r4"
      with l0 l1 l2 l3 l4 show ?thesis by simp
    qed
  qed
  from v e m show ?case by blast
qed

lemma parse_fuel_step:
  "(\<forall>s. 2 * length s < n \<longrightarrow> parse_value (Suc n) s = parse_value n s) \<and>
   (\<forall>acc s. 2 * length s + 1 < n \<longrightarrow> parse_elements (Suc n) acc s = parse_elements n acc s) \<and>
   (\<forall>acc s. 2 * length s < n \<longrightarrow> parse_members (Suc n) acc s = parse_members n acc s)"
proof (induction n)
  case 0
  show ?case by simp
next
  case (Suc n)
  then have V: "\<And>s. 2 * length s < n \<Longrightarrow> parse_value (Suc n) s = parse_value n s"
    and E: "\<And>acc s. 2 * length s + 1 < n \<Longrightarrow>
        parse_elements (Suc n) acc s = parse_elements n acc s"
    and M: "\<And>acc s. 2 * length s < n \<Longrightarrow> parse_members (Suc n) acc s = parse_members n acc s"
    by blast+
  have v: "parse_value (Suc (Suc n)) s = parse_value (Suc n) s" if b: "2 * length s < Suc n" for s
  proof (cases "skip_ws s")
    case Nil
    then show ?thesis by simp
  next
    case (Cons c t)
    note ct = skip_ws_Cons_length [OF Cons]
    show ?thesis
    proof (cases "skip_ws t")
      case Nil
      with Cons show ?thesis by simp
    next
      case c2: (Cons d t1)
      note dt = skip_ws_Cons_length [OF c2]
      from b ct dt have "2 * length (d # t1) < n" by simp
      then have m: "parse_members (Suc n) [] (d # t1) = parse_members n [] (d # t1)" by (rule M)
      from b ct dt have "2 * length (d # t1) + 1 < n" by simp
      then have e: "parse_elements (Suc n) [] (d # t1) = parse_elements n [] (d # t1)" by (rule E)
      show ?thesis
        unfolding parse_value.simps Cons c2 list.case m e by (rule refl)
    qed
  qed
  have e: "parse_elements (Suc (Suc n)) acc s = parse_elements (Suc n) acc s"
    if b: "2 * length s + 1 < Suc n" for acc s
  proof -
    from b have "2 * length s < n" by simp
    then have pv: "parse_value (Suc n) s = parse_value n s" by (rule V)
    show ?thesis
    proof (cases "parse_value n s")
      case None
      with pv show ?thesis by simp
    next
      case (Some a)
      obtain x r0 where a: "a = (x, r0)" by (cases a)
      from parse_consumes [of n] Some a have l0: "length r0 < length s" by blast
      show ?thesis
      proof (cases "skip_ws r0")
        case Nil
        with pv Some a show ?thesis by simp
      next
        case (Cons c r1)
        note l1 = skip_ws_Cons_length [OF Cons]
        from b l0 l1 have "2 * length r1 + 1 < n" by simp
        then have "parse_elements (Suc n) (acc @ [x]) r1 = parse_elements n (acc @ [x]) r1"
          by (rule E)
        with pv Some a Cons show ?thesis by simp
      qed
    qed
  qed
  have m: "parse_members (Suc (Suc n)) acc s = parse_members (Suc n) acc s"
    if b: "2 * length s < Suc n" for acc s
  proof (cases "skip_ws s")
    case Nil
    then show ?thesis by simp
  next
    case (Cons q t)
    note l0 = skip_ws_Cons_length [OF Cons]
    show ?thesis
    proof (cases "parse_string_chars t")
      case None
      with Cons show ?thesis by simp
    next
      case (Some a)
      obtain k r1 where a: "a = (k, r1)" by (cases a)
      from Some a have l1: "length r1 < length t" by (simp add: parse_string_chars_length)
      show ?thesis
      proof (cases "skip_ws r1")
        case Nil
        with Cons Some a show ?thesis by simp
      next
        case c2: (Cons c r2)
        note l2 = skip_ws_Cons_length [OF c2]
        from b l0 l1 l2 have "2 * length r2 < n" by simp
        then have pv: "parse_value (Suc n) r2 = parse_value n r2" by (rule V)
        show ?thesis
        proof (cases "parse_value n r2")
          case None
          with pv Cons Some a c2 show ?thesis by simp
        next
          case s2: (Some a2)
          obtain x r3 where a2: "a2 = (x, r3)" by (cases a2)
          from parse_consumes [of n] s2 a2 have l3: "length r3 < length r2" by blast
          show ?thesis
          proof (cases "skip_ws r3")
            case Nil
            with pv Cons Some a c2 s2 a2 show ?thesis by simp
          next
            case c4: (Cons d r4)
            note l4 = skip_ws_Cons_length [OF c4]
            from b l0 l1 l2 l3 l4 have "2 * length r4 < n" by simp
            then have "parse_members (Suc n) (AList.update k x acc) r4 =
                parse_members n (AList.update k x acc) r4" by (rule M)
            with pv Cons Some a c2 s2 a2 c4 show ?thesis by simp
          qed
        qed
      qed
    qed
  qed
  from v e m show ?case by blast
qed

lemma parse_value_fuel:
  "length s + length s < n \<Longrightarrow> parse_value n s = parse_value (Suc (length s + length s)) s"
proof (induction n)
  case 0
  then show ?case by simp
next
  case (Suc n)
  show ?case
  proof (cases "length s + length s < n")
    case True
    then have "2 * length s < n" by simp
    then have "parse_value (Suc n) s = parse_value n s" using parse_fuel_step [of n] by blast
    with Suc.IH [OF True] show ?thesis by simp
  next
    case False
    with Suc.prems have "n = length s + length s" by simp
    then show ?thesis by simp
  qed
qed

section \<open>\<open>JSON.parse\<close> inverts \<open>JSON.stringify\<close> on flat objects\<close>

lemma hex_value_hex_digit: "k < 16 \<Longrightarrow> hex_value (hex_digit k) = Some k"
  by (auto simp: hex_value_def hex_digit_def Let_def)

lemma parse_string_chars_quote_char:
  "parse_string_chars (quote_char c @ r) =
     (case parse_string_chars r of None \<Rightarrow> None | Some (t, r3) \<Rightarrow> Some (c # t, r3))"
proof -
  have small: "(of_char c :: nat) < 0x20 \<Longrightarrow>
      hex4 (CHR ''0'') (CHR ''0'') (hex_digit (of_char c div 16)) (hex_digit (of_char c mod 16)) = Some c"
  proof -
    assume a: "(of_char c :: nat) < 0x20"
    then have "(of_char c :: nat) div 16 < 16" by simp
    then have 1: "hex_value (hex_digit (of_char c div 16)) = Some (of_char c div 16)"
      by (rule hex_value_hex_digit)
    have 2: "hex_value (hex_digit (of_char c mod 16)) = Some (of_char c mod 16)"
      by (rule hex_value_hex_digit) simp
    have 0: "hex_value (CHR ''0'') = Some 0" by (simp add: hex_value_def)
    from a have 3: "(of_char c :: nat) < 256" by simp
    show ?thesis by (simp add: hex4_def 0 1 2 3)
  qed
  show ?thesis
    by (auto simp add: quote_char_def unescape_def small)
qed

lemma parse_string_chars_quoted:
  "parse_string_chars (concat (map quote_char s) @ CHR 0x22 # r) = Some (s, r)"
  by (induction s) (simp_all add: parse_string_chars_quote_char del: parse_string_chars.simps(2), simp)

lemma digit_char_isDigit: "n < 10 \<Longrightarrow> isDigit (digit_char n)"
  by (simp add: isDigit_def digit_char_def)

lemma digit_char_value: "n < 10 \<Longrightarrow> (of_char (digit_char n) :: nat) - 48 = n"
  by (simp add: digit_char_def)

lemma digit_char_zero: "n < 10 \<Longrightarrow> digit_char n = CHR ''0'' \<Longrightarrow> n = 0"
proof -
  assume a: "n < 10" and b: "digit_char n = CHR ''0''"
  from b have "(of_char (digit_char n) :: nat) = of_char (CHR ''0'')" by simp
  with a show ?thesis by (simp add: digit_char_def)
qed

lemma digits_nonempty: "digits n \<noteq> []"
  by (subst digits.simps) simp

lemma digits_all: "list_all isDigit (digits n)"
proof (induction n rule: digits.induct)
  case (1 n)
  show ?case
  proof (cases "n < 10")
    case True
    then show ?thesis by (subst digits.simps) (simp add: digit_char_isDigit)
  next
    case False
    with 1 show ?thesis by (subst digits.simps) (simp add: digit_char_isDigit)
  qed
qed

lemma nat_of_digits_snoc: "nat_of_digits (ds @ [c]) = 10 * nat_of_digits ds + (of_char c - 48)"
  by (simp add: nat_of_digits_def)

lemma nat_of_digits_digits: "nat_of_digits (digits n) = n"
proof (induction n rule: digits.induct)
  case (1 n)
  show ?case
  proof (cases "n < 10")
    case True
    then show ?thesis by (subst digits.simps) (simp add: nat_of_digits_def digit_char_value)
  next
    case False
    with 1 have "nat_of_digits (digits (n div 10)) = n div 10" by simp
    with False show ?thesis
      by (subst digits.simps) (simp add: nat_of_digits_snoc digit_char_value)
  qed
qed

lemma digits_hd_zero: "hd (digits n) = CHR ''0'' \<Longrightarrow> n = 0"
proof (induction n rule: digits.induct)
  case (1 n)
  show ?case
  proof (cases "n < 10")
    case True
    with 1(2) have "digit_char n = CHR ''0''" by (subst (asm) digits.simps) simp
    with True show ?thesis by (rule digit_char_zero)
  next
    case False
    with 1(2) have "hd (digits (n div 10)) = CHR ''0''"
      by (subst (asm) digits.simps) (simp add: digits_nonempty)
    with 1(1) False have "n div 10 = 0" by simp
    with False show ?thesis by simp
  qed
qed

lemma digits_no_leading_zero: "\<not> (hd (digits n) = CHR ''0'' \<and> length (digits n) > 1)"
proof
  assume a: "hd (digits n) = CHR ''0'' \<and> length (digits n) > 1"
  then have "n = 0" by (simp add: digits_hd_zero)
  then have "digits n = [digit_char 0]" by (subst digits.simps) simp
  with a show False by simp
qed

lemma digits_hd_isDigit: "isDigit (hd (digits n))"
  using digits_all [of n] digits_nonempty [of n] by (cases "digits n") simp_all

lemma takeWhile_digits: "number_end r \<Longrightarrow> takeWhile isDigit (digits n @ r) = digits n"
  using digits_all [of n]
  by (cases r) (simp_all add: takeWhile_append2 list_all_iff number_end_def)

lemma dropWhile_digits: "number_end r \<Longrightarrow> dropWhile isDigit (digits n @ r) = r"
  using digits_all [of n]
  by (cases r) (simp_all add: dropWhile_append2 list_all_iff number_end_def)

lemma not_minus_digit: "isDigit c \<Longrightarrow> c \<noteq> CHR ''-''"
  by (auto simp: isDigit_def)

lemma parse_number_toString:
  assumes "number_end r"
  shows "parse_number (Number_toString i @ r) = Some (JNum i, r)"
proof (cases "i < 0")
  case True
  have e: "\<not> (case r of [] \<Rightarrow> False | c # _ \<Rightarrow> c = CHR ''.'' \<or> c = CHR ''e'' \<or> c = CHR ''E'')"
    using assms by (cases r) (simp_all add: number_end_def)
  from True show ?thesis
    using digits_no_leading_zero [of "nat (- i)"] e
    by (simp add: parse_number_def Let_def Number_toString_def takeWhile_digits [OF assms]
        dropWhile_digits [OF assms] digits_nonempty nat_of_digits_digits)
next
  case False
  have e: "\<not> (case r of [] \<Rightarrow> False | c # _ \<Rightarrow> c = CHR ''.'' \<or> c = CHR ''e'' \<or> c = CHR ''E'')"
    using assms by (cases r) (simp_all add: number_end_def)
  obtain c ds where d: "digits (nat i) = c # ds"
    using digits_nonempty [of "nat i"] by (cases "digits (nat i)") auto
  with digits_hd_isDigit [of "nat i"] have "c \<noteq> CHR ''-''" by (simp add: not_minus_digit)
  then have "(case digits (nat i) @ r of [] \<Rightarrow> (False, digits (nat i) @ r)
       | c # t \<Rightarrow> if c = CHR ''-'' then (True, t) else (False, digits (nat i) @ r))
     = (False, digits (nat i) @ r)" by (simp add: d)
  with False show ?thesis
    using digits_no_leading_zero [of "nat i"] e
    by (simp add: parse_number_def Let_def Number_toString_def takeWhile_digits [OF assms]
        dropWhile_digits [OF assms] digits_nonempty nat_of_digits_digits)
qed

lemma number_start_facts:
  assumes "isDigit c \<or> c = CHR ''-''"
  shows "\<not> isJSONWhiteSpace c" and "c \<noteq> CHR 0x22" and "c \<noteq> CHR ''{''" and "c \<noteq> CHR ''[''"
    and "c \<noteq> CHR ''t''" and "c \<noteq> CHR ''f''" and "c \<noteq> CHR ''n''"
  using assms by (auto simp: isDigit_def isJSONWhiteSpace_def)

lemma parse_value_number:
  "isDigit c \<or> c = CHR ''-'' \<Longrightarrow> parse_value (Suc n) (c # r) = parse_number (c # r)"
  by (simp add: skip_ws_def number_start_facts)

lemma Number_toString_hd:
  "\<exists>c t. Number_toString i = c # t \<and> (isDigit c \<or> c = CHR ''-'')"
proof (cases "i < 0")
  case True
  then show ?thesis by (simp add: Number_toString_def)
next
  case False
  obtain c ds where d: "digits (nat i) = c # ds"
    using digits_nonempty [of "nat i"] by (cases "digits (nat i)") auto
  with digits_hd_isDigit [of "nat i"] have "isDigit c" by simp
  with False d show ?thesis by (simp add: Number_toString_def)
qed

lemma parse_value_Number_toString:
  assumes "number_end r"
  shows "parse_value (Suc n) (Number_toString i @ r) = Some (JNum i, r)"
proof -
  obtain c t where ct: "Number_toString i = c # t" and c: "isDigit c \<or> c = CHR ''-''"
    using Number_toString_hd by blast
  have "parse_value (Suc n) (Number_toString i @ r) = parse_number (Number_toString i @ r)"
    unfolding ct using c by (simp only: append_Cons parse_value_number)
  then show ?thesis by (simp only: parse_number_toString [OF assms])
qed

lemma parse_value_quoted:
  "parse_value (Suc n) (QuoteJSONString s @ r) = Some (JStr s, r)"
  by (simp add: QuoteJSONString_def skip_ws_def isJSONWhiteSpace_def parse_string_chars_quoted)

lemma member_end_number_end: "member_end r \<Longrightarrow> number_end r"
  by (cases r) (auto simp: member_end_def number_end_def isDigit_def)

lemma parse_value_primitive:
  assumes "primitive v" and "member_end r"
  shows "parse_value (Suc n) ((case SerializeJSONProperty v of None \<Rightarrow> [] | Some t \<Rightarrow> t) @ r)
           = Some (v, r)"
proof (cases v)
  case (JNum i)
  then show ?thesis
    using parse_value_Number_toString [OF member_end_number_end [OF assms(2)]]
    by (simp del: parse_value.simps)
next
  case (JStr s)
  then show ?thesis by (simp add: parse_value_quoted del: parse_value.simps)
next
  case (JBool b)
  then show ?thesis by (simp add: skip_ws_def isJSONWhiteSpace_def)
next
  case JNull
  then show ?thesis by (simp add: skip_ws_def isJSONWhiteSpace_def)
qed (use assms(1) in \<open>simp_all add: primitive_def\<close>)

lemma skip_ws_member_end: "member_end r \<Longrightarrow> skip_ws r = r"
  by (cases r) (auto simp: skip_ws_def member_end_def isJSONWhiteSpace_def)

lemma parse_members_step:
  assumes "primitive v"
  shows "parse_members (Suc (Suc m)) acc (member_text (k, v) @ d # r) =
     (if d = CHR '','' then parse_members (Suc m) (AList.update k v acc) r
      else if d = CHR ''}'' then Some (JObj (AList.update k v acc), r)
      else parse_members (Suc (Suc m)) acc (member_text (k, v) @ d # r))"
proof (cases "d = CHR '','' \<or> d = CHR ''}''")
  case False
  then show ?thesis by simp
next
  case True
  then have me: "member_end (d # r)" by (simp add: member_end_def)
  let ?t = "case SerializeJSONProperty v of None \<Rightarrow> [] | Some t \<Rightarrow> t"
  have q: "QuoteJSONString k @ CHR '':'' # ?t @ d # r =
      CHR 0x22 # (concat (map quote_char k) @ CHR 0x22 # CHR '':'' # ?t @ d # r)"
    by (simp add: QuoteJSONString_def)
  have pv: "parse_value (Suc m) (?t @ d # r) = Some (v, d # r)"
    by (rule parse_value_primitive [OF assms me])
  have sk: "skip_ws (d # r) = d # r" by (rule skip_ws_member_end [OF me])
  have sc: "skip_ws (CHR '':'' # ?t @ d # r) = CHR '':'' # ?t @ d # r"
    by (simp add: skip_ws_def isJSONWhiteSpace_def)
  have sq: "skip_ws (CHR 0x22 # (concat (map quote_char k) @ CHR 0x22 # CHR '':'' # ?t @ d # r))
      = CHR 0x22 # (concat (map quote_char k) @ CHR 0x22 # CHR '':'' # ?t @ d # r)"
    by (simp add: skip_ws_def isJSONWhiteSpace_def)
  show ?thesis
    unfolding member_text_def fst_conv snd_conv append_assoc append_Cons q
    by (simp only: parse_members.simps sq list.case parse_string_chars_quoted option.case
        prod.case sc pv sk) (use True in auto)
qed

lemma update_fresh: "k \<notin> set (map fst acc) \<Longrightarrow> AList.update k v acc = acc @ [(k, v)]"
  by (induction acc) auto

lemma fold_update_distinct:
  "distinct (map fst (acc @ kvs)) \<Longrightarrow>
   fold (\<lambda>kv. AList.update (fst kv) (snd kv)) kvs acc = acc @ kvs"
proof (induction kvs arbitrary: acc)
  case Nil
  show ?case by simp
next
  case (Cons kv kvs)
  from Cons.prems have fresh: "fst kv \<notin> set (map fst acc)" by auto
  from Cons.prems have d: "distinct (map fst ((acc @ [kv]) @ kvs))" by simp
  have "fold (\<lambda>kv. AList.update (fst kv) (snd kv)) (kv # kvs) acc =
        fold (\<lambda>kv. AList.update (fst kv) (snd kv)) kvs (acc @ [kv])"
    using update_fresh [OF fresh, of "snd kv"] by simp
  also have "\<dots> = (acc @ [kv]) @ kvs" by (rule Cons.IH [OF d])
  finally show ?case by simp
qed

lemma parse_members_flat:
  "list_all (\<lambda>kv. primitive (snd kv)) kvs \<Longrightarrow> kvs \<noteq> [] \<Longrightarrow> length kvs < n \<Longrightarrow>
   parse_members n acc (join_comma (map member_text kvs) @ CHR ''}'' # r) =
     Some (JObj (fold (\<lambda>kv. AList.update (fst kv) (snd kv)) kvs acc), r)"
proof (induction kvs arbitrary: n acc)
  case Nil
  then show ?case by simp
next
  case (Cons kv kvs)
  from Cons.prems(3) obtain m where n: "n = Suc (Suc m)" and m: "length kvs < Suc m"
    by (cases n; cases "n - 1") auto
  from Cons.prems(1) have p: "primitive (snd kv)" by simp
  obtain k v where kv: "kv = (k, v)" by (cases kv)
  show ?case
  proof (cases kvs)
    case Nil
    then show ?thesis
      using parse_members_step [of v m acc k "CHR ''}''" r] p
      by (simp add: n kv del: parse_members.simps)
  next
    case (Cons kv2 rest)
    have ih: "parse_members (Suc m) (AList.update k v acc)
        (join_comma (map member_text kvs) @ CHR ''}'' # r) =
        Some (JObj (fold (\<lambda>kv. AList.update (fst kv) (snd kv)) kvs (AList.update k v acc)), r)"
      using Cons.IH [of "Suc m" "AList.update k v acc"] Cons.prems(1) Cons m by simp
    show ?thesis
      using parse_members_step [of v m acc k "CHR '',''"
          "join_comma (map member_text kvs) @ CHR ''}'' # r"] p ih
      by (simp add: n kv Cons del: parse_members.simps)
  qed
qed

lemma serialize_flat:
  "list_all (\<lambda>kv. primitive (snd kv)) kvs \<Longrightarrow>
   concat (map (\<lambda>(k, r). case r of None \<Rightarrow> [] | Some t \<Rightarrow> [QuoteJSONString k @ CHR '':'' # t])
     (map (map_prod id SerializeJSONProperty) kvs)) = map member_text kvs"
proof (induction kvs)
  case Nil
  show ?case by simp
next
  case (Cons kv kvs)
  obtain k v where kv: "kv = (k, v)" by (cases kv)
  from Cons.prems have "primitive v" by (simp add: kv)
  then have "SerializeJSONProperty v \<noteq> None" by (cases v) (simp_all add: primitive_def)
  with Cons show ?case by (auto simp: kv member_text_def)
qed

lemma member_text_length: "3 \<le> length (member_text kv)"
  by (simp add: member_text_def QuoteJSONString_def)

lemma length_join_comma: "length xs \<le> length (join_comma (map member_text xs))"
proof (induction xs rule: induct_list012)
  case 1
  show ?case by simp
next
  case (2 x)
  show ?case using member_text_length [of x] by simp
next
  case (3 x y zs)
  then show ?case using member_text_length [of x] by simp
qed

lemma join_comma_members_hd:
  "kvs \<noteq> [] \<Longrightarrow> \<exists>t. join_comma (map member_text kvs) = CHR 0x22 # t"
  by (induction kvs rule: induct_list012) (simp_all add: member_text_def QuoteJSONString_def)

lemma JSON_parse_stringify_flat:
  assumes "distinct (map fst kvs)" and "list_all (\<lambda>kv. primitive (snd kv)) kvs"
  shows "JSON_parse (JSON_stringify (JObj kvs)) = Inr (JObj kvs)"
proof (cases "kvs = []")
  case True
  then show ?thesis
    by (simp add: JSON_parse_def JSON_stringify_def skip_ws_def isJSONWhiteSpace_def)
next
  case False
  let ?M = "join_comma (map member_text kvs)"
  let ?s = "CHR ''{'' # ?M @ [CHR ''}'']"
  have "SerializeJSONProperty (JObj kvs) = Some ?s"
    by (simp only: SerializeJSONProperty.simps serialize_flat [OF assms(2)])
  then have s: "JSON_stringify (JObj kvs) = ?s"
    by (simp add: JSON_stringify_def)
  obtain t where t: "?M = CHR 0x22 # t" using join_comma_members_hd [OF False] by blast
  have fuel: "length kvs < length ?s + length ?s" using length_join_comma [of kvs] by simp
  have pm: "parse_members (length ?s + length ?s) [] (?M @ CHR ''}'' # []) =
      Some (JObj (fold (\<lambda>kv. AList.update (fst kv) (snd kv)) kvs []), [])"
    by (rule parse_members_flat [OF assms(2) False fuel])
  have f: "fold (\<lambda>kv. AList.update (fst kv) (snd kv)) kvs [] = kvs"
    using fold_update_distinct [of "[]" kvs] assms(1) by simp
  have sk: "skip_ws (?M @ [CHR ''}'']) = ?M @ [CHR ''}'']"
    by (simp add: t skip_ws_def isJSONWhiteSpace_def)
  have "parse_value (Suc (length ?s + length ?s)) ?s = Some (JObj kvs, [])"
    using pm f
    by (simp add: sk skip_ws_def isJSONWhiteSpace_def t del: parse_members.simps)
  then show ?thesis
    unfolding s JSON_parse_def by (simp add: skip_ws_def del: parse_value.simps)
qed

section \<open>The payload\<close>

lemma JSON_parse_payload:
  "JSON_parse (buildSignaturePayload f) = Inr (JObj
        [(''v'', JStr ''1.0''),
         (''dh'', JStr (document_hash f)),
         (''ih'', JStr (intent_hash f)),
         (''it'', JStr (intent_text f)),
         (''ai'', JStr (approver_id f)),
         (''an'', JStr (approver_name f)),
         (''ts'', JNum (timestamp f)),
         (''pp'', JStr (presence_proof_id f)),
         (''pph'', JStr (presence_proof_hash f)),
         (''af'', JBool (ai_flag f))])"
  unfolding buildSignaturePayload_def Let_def version_string_def
  by (rule JSON_parse_stringify_flat) (simp_all add: primitive_def)

lemma buildSignaturePayload_inj:
  assumes "buildSignaturePayload f = buildSignaturePayload g"
  shows "f = g"
proof -
  have "JSON_parse (buildSignaturePayload f) = JSON_parse (buildSignaturePayload g)"
    using assms by simp
  then have "document_hash f = document_hash g \<and> intent_hash f = intent_hash g \<and>
     intent_text f = intent_text g \<and> approver_id f = approver_id g \<and>
     approver_name f = approver_name g \<and> timestamp f = timestamp g \<and>
     presence_proof_id f = presence_proof_id g \<and> presence_proof_hash f = presence_proof_hash g \<and>
     ai_flag f = ai_flag g"
    unfolding JSON_parse_payload by simp
  moreover have "version f = version g" by (cases "version f"; cases "version g") simp
  ultimately show ?thesis by simp
qed

lemma payload_text:
  "buildSignaturePayload f =
     ''{\"v\":\"1.0\",\"dh\":'' @ QuoteJSONString (document_hash f) @
     '',\"ih\":'' @ QuoteJSONString (intent_hash f) @
     '',\"it\":'' @ QuoteJSONString (intent_text f) @
     '',\"ai\":'' @ QuoteJSONString (approver_id f) @
     '',\"an\":'' @ QuoteJSONString (approver_name f) @
     '',\"ts\":'' @ Number_toString (timestamp f) @
     '',\"pp\":'' @ QuoteJSONString (presence_proof_id f) @
     '',\"pph\":'' @ QuoteJSONString (presence_proof_hash f) @
     '',\"af\":'' @ (if ai_flag f then ''true'' else ''false'') @ ''}''"
  by (simp add: buildSignaturePayload_def JSON_stringify_def version_string_def
      QuoteJSONString_def quote_char_def)

lemma payload_keys:
  "\<exists>kvs. JSON_parse (buildSignaturePayload f) = Inr (JObj kvs) \<and>
     map fst kvs = [''v'', ''dh'', ''ih'', ''it'', ''ai'', ''an'', ''ts'', ''pp'', ''pph'', ''af'']"
  unfolding JSON_parse_payload by simp

text \<open>
  Claim C7. buildSignaturePayload is a function of the field values: equal fields give
  equal payloads, and the payload is the JSON text of the fields with the keys in the fixed
  order v, dh, ih, it, ai, an, ts, pp, pph, af.
\<close>
theorem payload_deterministic_ordered:
  "(f = g \<longrightarrow> buildSignaturePayload f = buildSignaturePayload g) \<and>
   buildSignaturePayload f =
     ''{\"v\":\"1.0\",\"dh\":'' @ QuoteJSONString (document_hash f) @
     '',\"ih\":'' @ QuoteJSONString (intent_hash f) @
     '',\"it\":'' @ QuoteJSONString (intent_text f) @
     '',\"ai\":'' @ QuoteJSONString (approver_id f) @
     '',\"an\":'' @ QuoteJSONString (approver_name f) @
     '',\"ts\":'' @ Number_toString (timestamp f) @
     '',\"pp\":'' @ QuoteJSONString (presence_proof_id f) @
     '',\"pph\":'' @ QuoteJSONString (presence_proof_hash f) @
     '',\"af\":'' @ (if ai_flag f then ''true'' else ''false'') @ ''}'' \<and>
   (\<exists>kvs. JSON_parse (buildSignaturePayload f) = Inr (JObj kvs) \<and>
      map fst kvs = [''v'', ''dh'', ''ih'', ''it'', ''ai'', ''an'', ''ts'', ''pp'', ''pph'', ''af''])"
  using payload_text [of f] payload_keys [of f] by simp

lemma digits_5: "digits 5 = ''5''"
  by (subst digits.simps) (simp add: digit_char_def char_of_eq_iff)

theorem payload_deterministic_ordered_witness:
  "buildSignaturePayload
     \<lparr>version = V1_0, document_hash = ''d'', intent_hash = ''i'', intent_text = ''Approve X'',
      approver_id = ''u'', approver_name = ''N'', timestamp = 5, presence_proof_id = ''p'',
      presence_proof_hash = ''h'', ai_flag = False\<rparr> =
   ''{\"v\":\"1.0\",\"dh\":\"d\",\"ih\":\"i\",\"it\":\"Approve X\",\"ai\":\"u\",\"an\":\"N\",\"ts\":5,\"pp\":\"p\",\"pph\":\"h\",\"af\":false}''"
  using payload_deterministic_ordered [of
     "\<lparr>version = V1_0, document_hash = ''d'', intent_hash = ''i'', intent_text = ''Approve X'',
      approver_id = ''u'', approver_name = ''N'', timestamp = 5, presence_proof_id = ''p'',
      presence_proof_hash = ''h'', ai_flag = False\<rparr>"
     "\<lparr>version = V1_0, document_hash = ''d'', intent_hash = ''i'', intent_text = ''Approve X'',
      approver_id = ''u'', approver_name = ''N'', timestamp = 5, presence_proof_id = ''p'',
      presence_proof_hash = ''h'', ai_flag = False\<rparr>"]
  by (simp add: QuoteJSONString_def quote_char_def Number_toString_def digits_5)

section \<open>Serialization\<close>

lemma asRealitySignature_object: "asRealitySignature (RealitySignature_object r) = r"
  by (cases "version r")
    (simp add: asRealitySignature_def RealitySignature_object_def string_of_def number_of_def
      boolean_of_def)

lemma JSON_parse_serialized:
  "JSON_parse (serializeRealitySignature r) = Inr (JObj
        [(''v'', JStr ''1.0''),
         (''dh'', JStr (document_hash r)),
         (''ih'', JStr (intent_hash r)),
         (''it'', JStr (intent_text r)),
         (''ai'', JStr (approver_id r)),
         (''an'', JStr (approver_name r)),
         (''ts'', JNum (timestamp r)),
         (''pp'', JStr (presence_proof_id r)),
         (''pph'', JStr (presence_proof_hash r)),
         (''af'', JBool (ai_flag r)),
         (''sg'', JStr (signature r)),
         (''pk'', JStr (public_key r))])"
  unfolding serializeRealitySignature_def Let_def version_string_def
  by (rule JSON_parse_stringify_flat) (simp_all add: primitive_def)

lemma deserialize_serialize:
  "deserializeRealitySignature (serializeRealitySignature r) = Inr (RealitySignature_object r)"
  unfolding deserializeRealitySignature_def JSON_parse_serialized
  by (simp add: RealitySignature_object_def version_string_def)

lemma deserialize_failure:
  "(JSON_parse json = Inr parsed \<and> property parsed ''v'' \<noteq> JStr ''1.0'' \<longrightarrow>
      deserializeRealitySignature json = Inl TypeError \<or>
      deserializeRealitySignature json = Inl (Error ''Invalid signature version'')) \<and>
   (JSON_parse json = Inl e \<longrightarrow> deserializeRealitySignature json = Inl e)"
  by (cases parsed) (auto simp: deserializeRealitySignature_def)

text \<open>
  Claim C5. Deserializing the serialization of a record gives the object of that record,
  from which every field of the record is read back; and deserializeRealitySignature raises
  on every input whose \<open>v\<close> is not the string 1.0, as on every input that does not parse.
\<close>
theorem serialization_roundtrip:
  "deserializeRealitySignature (serializeRealitySignature r) = Inr (RealitySignature_object r) \<and>
   asRealitySignature (RealitySignature_object r) = r \<and>
   (JSON_parse json = Inr parsed \<and> property parsed ''v'' \<noteq> JStr ''1.0'' \<longrightarrow>
      deserializeRealitySignature json = Inl TypeError \<or>
      deserializeRealitySignature json = Inl (Error ''Invalid signature version'')) \<and>
   (JSON_parse json = Inl e \<longrightarrow> deserializeRealitySignature json = Inl e)"
  using deserialize_serialize [of r] deserialize_failure [of json parsed e]
  by (simp add: asRealitySignature_object)

lemma JSON_parse_example:
  "JSON_parse ''{\"v\":\"2.0\",\"dh\":\"d\"}'' = Inr (JObj [(''v'', JStr ''2.0''), (''dh'', JStr ''d'')])"
  by (simp add: JSON_parse_def skip_ws_def isJSONWhiteSpace_def)

theorem serialization_roundtrip_witness:
  "deserializeRealitySignature (serializeRealitySignature toy_signature) =
     Inr (RealitySignature_object toy_signature) \<and>
   deserializeRealitySignature ''{\"v\":\"2.0\",\"dh\":\"d\"}'' =
     Inl (Error ''Invalid signature version'') \<and>
   deserializeRealitySignature ''null'' = Inl TypeError \<and>
   deserializeRealitySignature ''{\"v\":'' = Inl SyntaxError"
proof -
  have p1: "JSON_parse ''{\"v\":\"2.0\",\"dh\":\"d\"}'' =
      Inr (JObj [(''v'', JStr ''2.0''), (''dh'', JStr ''d'')])"
    by (rule JSON_parse_example)
  have p2: "JSON_parse ''null'' = Inr JNull"
    by (simp add: JSON_parse_def skip_ws_def isJSONWhiteSpace_def)
  have p3: "JSON_parse ''{\"v\":'' = Inl SyntaxError"
    by (simp add: JSON_parse_def skip_ws_def isJSONWhiteSpace_def)
  have d1: "deserializeRealitySignature ''{\"v\":\"2.0\",\"dh\":\"d\"}'' \<noteq> Inl TypeError"
    by (simp add: deserializeRealitySignature_def p1)
  have d2: "deserializeRealitySignature ''null'' \<noteq> Inl (Error ''Invalid signature version'')"
    by (simp add: deserializeRealitySignature_def p2)
  from serialization_roundtrip [of toy_signature "''{\"v\":\"2.0\",\"dh\":\"d\"}''"
      "JObj [(''v'', JStr ''2.0''), (''dh'', JStr ''d'')]" SyntaxError]
    serialization_roundtrip [of toy_signature "''null''" JNull SyntaxError]
    serialization_roundtrip [of toy_signature "''{\"v\":''" JNull SyntaxError]
  show ?thesis using p1 p2 p3 d1 d2 by simp
qed

lemma JSON_parse_object:
  "JSON_parse (JSON_stringify (RealitySignature_object r)) = Inr (RealitySignature_object r)"
  unfolding RealitySignature_object_def
  by (rule JSON_parse_stringify_flat) (simp_all add: primitive_def)

lemma deserialize_long_form:
  "deserializeRealitySignature (JSON_stringify (RealitySignature_object r)) =
     Inl (Error ''Invalid signature version'')"
  unfolding deserializeRealitySignature_def JSON_parse_object
  by (simp add: RealitySignature_object_def)

lemma parseSignature_short_form:
  "parseSignature (serializeRealitySignature r) = Inr (RealitySignature_object r)"
  unfolding parseSignature_def JSON_parse_serialized
  by (simp add: RealitySignature_object_def version_string_def)

lemma parseSignature_long_form:
  "parseSignature (JSON_stringify (RealitySignature_object r)) = Inr (RealitySignature_object r)"
  unfolding parseSignature_def JSON_parse_object
  by (simp add: RealitySignature_object_def)

theorem long_form_counterexample:
  "deserializeRealitySignature (JSON_stringify (RealitySignature_object toy_signature)) =
     Inl (Error ''Invalid signature version'')"
  by (rule deserialize_long_form)

text \<open>
  Claim C4, as amended. deserializeRealitySignature accepts the short-key form of a record
  and rejects the long-name form as an invalid version; parseSignature accepts both forms
  and returns the record for each.
\<close>
theorem deserializer_forms:
  "deserializeRealitySignature (serializeRealitySignature r) = Inr (RealitySignature_object r) \<and>
   deserializeRealitySignature (JSON_stringify (RealitySignature_object r)) =
     Inl (Error ''Invalid signature version'') \<and>
   parseSignature (serializeRealitySignature r) = Inr (RealitySignature_object r) \<and>
   parseSignature (JSON_stringify (RealitySignature_object r)) = Inr (RealitySignature_object r)"
  by (simp add: deserialize_serialize deserialize_long_form parseSignature_short_form
      parseSignature_long_form)

theorem deserializer_forms_witness:
  "deserializeRealitySignature (serializeRealitySignature toy_signature) =
     Inr (RealitySignature_object toy_signature) \<and>
   parseSignature (JSON_stringify (RealitySignature_object toy_signature)) =
     Inr (RealitySignature_object toy_signature)"
  using deserializer_forms [of toy_signature] by simp

section \<open>The small instance meets the assumptions\<close>

lemma toy_byte_roundtrip: "(of_nat (of_char (char_of (unat (b :: byte)) :: char)) :: byte) = b"
proof -
  have "unat b < 2 ^ LENGTH(8)" by (rule unsigned_less)
  then have "unat b < 256" by simp
  then have "(of_char (char_of (unat b) :: char) :: nat) = unat b" by simp
  then show ?thesis by (simp only: of_nat_unat ucast_id)
qed

lemma toy_char_inj: "(of_nat (of_char c) :: byte) = of_nat (of_char d) \<Longrightarrow> c = d"
proof -
  assume a: "(of_nat (of_char c) :: byte) = of_nat (of_char d)"
  have c: "(of_char c :: nat) < 256" and d: "(of_char d :: nat) < 256" by simp_all
  from a have "unat (of_nat (of_char c) :: byte) = unat (of_nat (of_char d) :: byte)" by simp
  with c d have "(of_char c :: nat) = of_char d" by (simp add: unat_of_nat)
  then show ?thesis by simp
qed

lemma toy_correct: "ed25519_correct toy_lib"
  by (auto simp: ed25519_correct_def toy_lib_def)

lemma toy_binding: "ed25519_binding toy_lib"
  by (auto simp: ed25519_binding_def toy_lib_def split: if_splits)

lemma toy_base64: "base64_roundtrip toy_lib"
  using toy_byte_roundtrip
  by (simp add: base64_roundtrip_def toy_lib_def o_def map_idI del: of_char_of)

lemma toy_utf8_inj: "inj (utf8_encode toy_lib)"
proof -
  have "inj (\<lambda>c :: char. (of_nat (of_char c) :: byte))"
    by (rule injI) (rule toy_char_inj)
  then show ?thesis by (simp add: toy_lib_def)
qed

lemma toy_valid_key: "valid_private_key toy_lib sk"
  by (simp add: valid_private_key_def toy_lib_def)

lemma toy_params_wellformed: "wellformed_params toy_params"
  by (simp add: wellformed_params_def toy_params_def isHex64_def list_all_iff)

lemma hex_digit_5: "hex_digit 5 = CHR ''5''"
  by (simp add: hex_digit_def char_of_eq_iff)

lemma hex_digit_1: "hex_digit (Suc 0) = CHR ''1''"
  by (simp add: hex_digit_def char_of_eq_iff)

lemma toy_document_hash: "p_document_hash toy_params = hashDocument toy_lib toy_document"
  by (simp add: toy_params_def hashDocument_def toy_lib_def toy_document_def hex_digit_5)

lemma toy_create:
  "\<exists>r. createRealitySignature toy_lib toy_params toy_key = Inr r"
  by (simp add: createRealitySignature_def sign_def toy_lib_def Let_def)

section \<open>Verification\<close>

lemma isValidSignatureFormat_object:
  "isValidSignatureFormat (RealitySignature_object r) = wellformed_signature r"
  by (auto simp: isValidSignatureFormat_def RealitySignature_object_def wellformed_signature_def
      version_string_def isHex64String_def isNonEmptyString_def)

lemma createRealitySignature_fields:
  assumes "createRealitySignature lib params sk = Inr r"
  shows "document_hash r = p_document_hash params" and "intent_hash r = p_intent_hash params"
    and "intent_text r = p_intent_text params" and "approver_id r = p_approver_id params"
    and "approver_name r = p_approver_name params" and "timestamp r = p_timestamp params"
    and "presence_proof_id r = p_presence_proof_id params"
    and "presence_proof_hash r = p_presence_proof_hash params"
    and "ai_flag r = (case p_ai_flag params of None \<Rightarrow> False | Some b \<Rightarrow> b)"
  using assms
  by (auto simp: createRealitySignature_def Let_def split: sum.splits)

lemma createRealitySignature_signature:
  assumes "createRealitySignature lib params sk = Inr r"
  shows "\<exists>s pk. ed_sign lib (utf8_encode lib (buildSignaturePayload (extractPayloadFields r))) sk = Inr s \<and>
           ed_getPublicKey lib sk = Inr pk \<and>
           signature r = base64_encode lib s \<and> public_key r = base64_encode lib pk"
  using assms
  by (auto simp: createRealitySignature_def sign_def extractPayloadFields_def Let_def
      split: sum.splits)

lemma base64_encode_nonempty:
  assumes "base64_roundtrip lib" and "b \<noteq> []"
  shows "base64_encode lib b \<noteq> []"
proof
  assume "base64_encode lib b = []"
  then have "base64_decode lib (base64_encode lib b) = base64_decode lib []" by simp
  with assms(1) have "b = []" by (simp add: base64_roundtrip_def)
  with assms(2) show False by simp
qed

lemma createRealitySignature_wellformed:
  assumes "ed25519_correct lib" and "base64_roundtrip lib" and "wellformed_params params"
    and r: "createRealitySignature lib params sk = Inr r"
  shows "wellformed_signature r"
proof -
  note f = createRealitySignature_fields [OF r]
  from createRealitySignature_signature [OF r] obtain s pk where
    s: "ed_sign lib (utf8_encode lib (buildSignaturePayload (extractPayloadFields r))) sk = Inr s"
    and pk: "ed_getPublicKey lib sk = Inr pk"
    and sr: "signature r = base64_encode lib s" and pr: "public_key r = base64_encode lib pk"
    by blast
  from assms(1) s pk have ne: "s \<noteq> []" "pk \<noteq> []"
    unfolding ed25519_correct_def by blast+
  show ?thesis
    using assms(3) ne base64_encode_nonempty [OF assms(2)]
    by (simp add: wellformed_signature_def wellformed_params_def f sr pr)
qed

lemma verifySignature_iff:
  "verifySignature lib payload sg pk =
     (ed_verify lib (base64_decode lib sg) (utf8_encode lib payload) (base64_decode lib pk)
        = Inr True)"
  by (simp add: verifySignature_def Let_def split: sum.splits)

lemma verify_cases:
  "verify lib document candidate =
     (if \<not> isValidSignatureFormat candidate then VerificationFailureMalformed
      else if hashDocument lib document \<noteq> document_hash (asRealitySignature candidate) then
        VerificationFailureDocumentAltered (hashDocument lib document)
          (document_hash (asRealitySignature candidate))
      else if \<not> verifySignature lib
          (buildSignaturePayload (extractPayloadFields (asRealitySignature candidate)))
          (signature (asRealitySignature candidate)) (public_key (asRealitySignature candidate))
      then VerificationFailureInvalidSignature
      else VerificationSuccess (approver_id (asRealitySignature candidate))
             (approver_name (asRealitySignature candidate))
             (timestamp (asRealitySignature candidate))
             (ai_flag (asRealitySignature candidate)))"
  unfolding verify_def Let_def by (rule refl)

lemma signed_fields_typed:
  assumes "isValidSignatureFormat candidate" and "k \<in> set signed_fields"
  shows "property candidate k = property (RealitySignature_object (asRealitySignature candidate)) k"
proof -
  have v: "property candidate ''version'' = JStr ''1.0''"
    using assms(1) by (simp add: isValidSignatureFormat_def split: if_splits)
  have h: "isHex64String (property candidate ''document_hash'')"
    "isHex64String (property candidate ''intent_hash'')"
    "isHex64String (property candidate ''presence_proof_hash'')"
    using assms(1) by (simp_all add: isValidSignatureFormat_def split: if_splits)
  have n: "isNonEmptyString (property candidate ''intent_text'')"
    "isNonEmptyString (property candidate ''approver_id'')"
    "isNonEmptyString (property candidate ''approver_name'')"
    "isNonEmptyString (property candidate ''presence_proof_id'')"
    using assms(1) by (simp_all add: isValidSignatureFormat_def split: if_splits)
  have t: "\<exists>i. property candidate ''timestamp'' = JNum i"
    using assms(1) by (auto simp: isValidSignatureFormat_def split: if_splits jsval.splits)
  have b: "\<exists>f. property candidate ''ai_flag'' = JBool f"
    using assms(1)
    by (cases "property candidate ''ai_flag''")
      (simp_all add: isValidSignatureFormat_def split: if_splits)
  have hs: "\<And>x. isHex64String x \<Longrightarrow> JStr (string_of x) = x"
    by (auto simp: isHex64String_def string_of_def split: jsval.splits)
  have ns: "\<And>x. isNonEmptyString x \<Longrightarrow> JStr (string_of x) = x"
    by (auto simp: isNonEmptyString_def string_of_def split: jsval.splits)
  from t have ts: "JNum (number_of (property candidate ''timestamp'')) = property candidate ''timestamp''"
    by (auto simp: number_of_def)
  from b have bs: "JBool (boolean_of (property candidate ''ai_flag'')) = property candidate ''ai_flag''"
    by (auto simp: boolean_of_def)
  from assms(2) show ?thesis
    by (auto simp: signed_fields_def RealitySignature_object_def asRealitySignature_def
        version_string_def v hs [OF h(1)] hs [OF h(2)] hs [OF h(3)] ns [OF n(1)] ns [OF n(2)]
        ns [OF n(3)] ns [OF n(4)] ts bs)
qed

lemma object_signed_fields:
  assumes "extractPayloadFields a = extractPayloadFields b" and "k \<in> set signed_fields"
  shows "property (RealitySignature_object a) k = property (RealitySignature_object b) k"
proof -
  from assms(1) have "document_hash a = document_hash b" "intent_hash a = intent_hash b"
    "intent_text a = intent_text b" "approver_id a = approver_id b"
    "approver_name a = approver_name b" "timestamp a = timestamp b"
    "presence_proof_id a = presence_proof_id b" "presence_proof_hash a = presence_proof_hash b"
    "ai_flag a = ai_flag b"
    by (simp_all add: extractPayloadFields_def)
  with assms(2) show ?thesis
    by (auto simp: signed_fields_def RealitySignature_object_def version_string_def)
qed

lemma verifySignature_binding:
  assumes "ed25519_binding lib" and "base64_roundtrip lib" and "inj (utf8_encode lib)"
    and r: "createRealitySignature lib params sk = Inr r"
    and v: "verifySignature lib payload (signature r) (public_key r)"
  shows "payload = buildSignaturePayload (extractPayloadFields r)"
proof -
  from createRealitySignature_signature [OF r] obtain s pk where
    s: "ed_sign lib (utf8_encode lib (buildSignaturePayload (extractPayloadFields r))) sk = Inr s"
    and pk: "ed_getPublicKey lib sk = Inr pk"
    and sr: "signature r = base64_encode lib s" and pr: "public_key r = base64_encode lib pk"
    by blast
  have d: "base64_decode lib (base64_encode lib s) = s" "base64_decode lib (base64_encode lib pk) = pk"
    using assms(2) by (simp_all add: base64_roundtrip_def)
  from v have "ed_verify lib s (utf8_encode lib payload) pk = Inr True"
    by (simp add: verifySignature_iff sr pr d)
  with assms(1) s pk have
    "utf8_encode lib payload = utf8_encode lib (buildSignaturePayload (extractPayloadFields r))"
    unfolding ed25519_binding_def by blast
  with assms(3) show ?thesis by (simp add: inj_eq)
qed

text \<open>
  Claim C2. For every document, every well-formed set of parameters whose document hash is
  the digest of the document, and every valid private key, createRealitySignature returns a
  record, and verifying that record against the document succeeds: the result is valid, its
  integrity is intact, and it carries the approver id, the approver name, the timestamp
  and the AI flag of the record. Ed25519 and base64 are assumed correct.
\<close>
theorem verify_roundtrip:
  assumes lib: "ed25519_correct lib" "base64_roundtrip lib"
    and key: "valid_private_key lib sk"
    and wf: "wellformed_params params"
    and doc: "p_document_hash params = hashDocument lib document"
  shows "\<exists>r. createRealitySignature lib params sk = Inr r \<and>
           verify lib document (RealitySignature_object r) =
             VerificationSuccess (approver_id r) (approver_name r) (timestamp r) (ai_flag r) \<and>
           valid (verify lib document (RealitySignature_object r)) \<and>
           document_integrity (verify lib document (RealitySignature_object r)) = ''intact''"
proof -
  from key obtain s0 pk0 where
    "ed_sign lib (utf8_encode lib (buildSignaturePayload
        \<lparr>version = V1_0,
         document_hash = p_document_hash params,
         intent_hash = p_intent_hash params,
         intent_text = p_intent_text params,
         approver_id = p_approver_id params,
         approver_name = p_approver_name params,
         timestamp = p_timestamp params,
         presence_proof_id = p_presence_proof_id params,
         presence_proof_hash = p_presence_proof_hash params,
         ai_flag = (case p_ai_flag params of None \<Rightarrow> False | Some b \<Rightarrow> b)\<rparr>)) sk = Inr s0"
    and "ed_getPublicKey lib sk = Inr pk0"
    unfolding valid_private_key_def by blast
  then obtain r where r: "createRealitySignature lib params sk = Inr r"
    by (simp add: createRealitySignature_def sign_def Let_def)
  note f = createRealitySignature_fields [OF r]
  from createRealitySignature_signature [OF r] obtain s pk where
    s: "ed_sign lib (utf8_encode lib (buildSignaturePayload (extractPayloadFields r))) sk = Inr s"
    and pk: "ed_getPublicKey lib sk = Inr pk"
    and sr: "signature r = base64_encode lib s" and pr: "public_key r = base64_encode lib pk"
    by blast
  from lib(1) s pk have ne: "s \<noteq> []" "pk \<noteq> []"
    and v: "ed_verify lib s (utf8_encode lib (buildSignaturePayload (extractPayloadFields r))) pk
              = Inr True"
    unfolding ed25519_correct_def by blast+
  have w: "wellformed_signature r"
    using wf ne base64_encode_nonempty [OF lib(2)]
    by (simp add: wellformed_signature_def wellformed_params_def f sr pr)
  have d: "base64_decode lib (base64_encode lib s) = s" "base64_decode lib (base64_encode lib pk) = pk"
    using lib(2) by (simp_all add: base64_roundtrip_def)
  have vs: "verifySignature lib (buildSignaturePayload (extractPayloadFields r)) (signature r)
      (public_key r)"
    by (simp add: verifySignature_def sr pr d v)
  have "verify lib document (RealitySignature_object r) =
      VerificationSuccess (approver_id r) (approver_name r) (timestamp r) (ai_flag r)"
    by (simp add: verify_def isValidSignatureFormat_object asRealitySignature_object w f(1) doc vs)
  with r show ?thesis by simp
qed

theorem verify_roundtrip_witness:
  "\<exists>r. createRealitySignature toy_lib toy_params toy_key = Inr r \<and>
       verify toy_lib toy_document (RealitySignature_object r) =
         VerificationSuccess ''user-123'' ''Test User'' 1234567890123 True"
proof -
  from verify_roundtrip [OF toy_correct toy_base64 toy_valid_key toy_params_wellformed
      toy_document_hash]
  obtain r where r: "createRealitySignature toy_lib toy_params toy_key = Inr r"
    and v: "verify toy_lib toy_document (RealitySignature_object r) =
      VerificationSuccess (approver_id r) (approver_name r) (timestamp r) (ai_flag r)"
    by blast
  note f = createRealitySignature_fields [OF r]
  have "approver_id r = ''user-123''" "approver_name r = ''Test User''"
    "timestamp r = 1234567890123" "ai_flag r = True"
    by (simp_all add: f toy_params_def)
  with r v show ?thesis by simp
qed

text \<open>
  Claim C3. For every document and every candidate value, verify returns one of the
  structured results. A malformed candidate gives the format failure, whatever the hash
  and the signature functions are. A well-formed candidate whose document hash is not the
  digest of the document gives the failure of an altered document, with the computed and
  the expected digest, whatever the signature check would say. A well-formed candidate with
  the right digest whose cryptographic check does not return true, also when it throws,
  gives the failure of a signature that is not authentic.
\<close>
theorem verify_structured:
  "(\<not> isValidSignatureFormat candidate \<longrightarrow>
      verify lib document candidate = VerificationFailureMalformed) \<and>
   (isValidSignatureFormat candidate \<and>
    property candidate ''document_hash'' \<noteq> JStr (hashDocument lib document) \<longrightarrow>
      (\<exists>expected. property candidate ''document_hash'' = JStr expected \<and>
         verify lib document candidate =
           VerificationFailureDocumentAltered (hashDocument lib document) expected \<and>
         verify (lib\<lparr>ed_verify := v\<rparr>) document candidate =
           VerificationFailureDocumentAltered (hashDocument lib document) expected)) \<and>
   (isValidSignatureFormat candidate \<and>
    property candidate ''document_hash'' = JStr (hashDocument lib document) \<and>
    ed_verify lib (base64_decode lib (signature (asRealitySignature candidate)))
      (utf8_encode lib (buildSignaturePayload (extractPayloadFields (asRealitySignature candidate))))
      (base64_decode lib (public_key (asRealitySignature candidate))) \<noteq> Inr True \<longrightarrow>
      verify lib document candidate = VerificationFailureInvalidSignature) \<and>
   \<not> valid VerificationFailureMalformed \<and>
   error VerificationFailureMalformed = Some ''invalid_signature_format'' \<and>
   document_integrity VerificationFailureMalformed = ''unknown'' \<and>
   \<not> valid (VerificationFailureDocumentAltered c e) \<and>
   error (VerificationFailureDocumentAltered c e) = Some ''document_altered'' \<and>
   document_integrity (VerificationFailureDocumentAltered c e) = ''altered'' \<and>
   \<not> valid VerificationFailureInvalidSignature \<and>
   error VerificationFailureInvalidSignature = Some ''signature_not_authentic'' \<and>
   document_integrity VerificationFailureInvalidSignature = ''unknown''"
proof -
  have dh: "property candidate ''document_hash'' =
      JStr (document_hash (asRealitySignature candidate))"
    if "isValidSignatureFormat candidate"
    using signed_fields_typed [OF that, of "''document_hash''"]
    by (simp add: signed_fields_def RealitySignature_object_def)
  have hd: "hashDocument (lib\<lparr>ed_verify := v\<rparr>) document = hashDocument lib document"
    by (simp add: hashDocument_def)
  show ?thesis
    by (auto simp: verify_cases verifySignature_iff dh hd)
qed

lemma toy_signature_valid: "isValidSignatureFormat (RealitySignature_object toy_signature)"
  by (simp add: isValidSignatureFormat_object wellformed_signature_def toy_signature_def
      isHex64_def list_all_iff)

theorem verify_structured_witness:
  "verify toy_lib toy_document JNull = VerificationFailureMalformed \<and>
   verify toy_lib toy_document (JObj [(''invalid'', JStr ''signature'')]) =
     VerificationFailureMalformed \<and>
   verify toy_lib [1] (RealitySignature_object toy_signature) =
     VerificationFailureDocumentAltered (replicate 64 (CHR ''1'')) (replicate 64 (CHR ''5'')) \<and>
   verify toy_lib toy_document (RealitySignature_object toy_signature) =
     VerificationFailureInvalidSignature"
proof -
  have h: "hashDocument toy_lib toy_document = replicate 64 (CHR ''5'')"
    "hashDocument toy_lib [1] = replicate 64 (CHR ''1'')"
    by (simp_all add: hashDocument_def toy_lib_def toy_document_def hex_digit_5 hex_digit_1)
  have a: "asRealitySignature (RealitySignature_object toy_signature) = toy_signature"
    by (rule asRealitySignature_object)
  have n: "\<not> isValidSignatureFormat JNull"
    "\<not> isValidSignatureFormat (JObj [(''invalid'', JStr ''signature'')])"
    by (simp_all add: isValidSignatureFormat_def)
  have e: "ed_verify toy_lib (base64_decode toy_lib (signature toy_signature))
      (utf8_encode toy_lib (buildSignaturePayload (extractPayloadFields toy_signature)))
      (base64_decode toy_lib (public_key toy_signature)) = Inl (Error ''invalid signature'')"
    by (simp add: toy_lib_def toy_signature_def)
  have d: "property (RealitySignature_object toy_signature) ''document_hash'' =
      JStr (replicate 64 (CHR ''5''))"
    by (simp add: RealitySignature_object_def toy_signature_def)
  from verify_structured [of JNull toy_lib toy_document]
    verify_structured [of "JObj [(''invalid'', JStr ''signature'')]" toy_lib toy_document]
    verify_structured [of "RealitySignature_object toy_signature" toy_lib "[1]"]
    verify_structured [of "RealitySignature_object toy_signature" toy_lib toy_document]
  show ?thesis using n toy_signature_valid by (simp add: a h d e)
qed

section \<open>Tampering\<close>

lemma tamper_cases:
  assumes lib: "ed25519_binding lib" "base64_roundtrip lib" "inj (utf8_encode lib)"
    and r: "createRealitySignature lib params sk = Inr r"
    and doc: "p_document_hash params = hashDocument lib document"
  shows
    "(hashDocument lib document' \<noteq> hashDocument lib document \<longrightarrow>
        verify lib document' (RealitySignature_object r) =
          (if \<not> isValidSignatureFormat (RealitySignature_object r) then
             VerificationFailureMalformed
           else VerificationFailureDocumentAltered (hashDocument lib document')
                  (hashDocument lib document))) \<and>
     (property candidate ''signature'' = JStr (signature r) \<and>
      property candidate ''public_key'' = JStr (public_key r) \<and>
      (\<exists>k \<in> set signed_fields.
         property candidate k \<noteq> property (RealitySignature_object r) k) \<longrightarrow>
        verify lib document candidate =
          (if \<not> isValidSignatureFormat candidate then VerificationFailureMalformed
           else if string_of (property candidate ''document_hash'') \<noteq> document_hash r then
             VerificationFailureDocumentAltered (hashDocument lib document)
               (string_of (property candidate ''document_hash''))
           else VerificationFailureInvalidSignature))"
proof (intro conjI impI)
  note f = createRealitySignature_fields [OF r]
  assume "hashDocument lib document' \<noteq> hashDocument lib document"
  then show "verify lib document' (RealitySignature_object r) =
      (if \<not> isValidSignatureFormat (RealitySignature_object r) then
         VerificationFailureMalformed
       else VerificationFailureDocumentAltered (hashDocument lib document')
              (hashDocument lib document))"
    by (simp add: verify_cases asRealitySignature_object f(1) doc)
next
  note f = createRealitySignature_fields [OF r]
  assume a: "property candidate ''signature'' = JStr (signature r) \<and>
      property candidate ''public_key'' = JStr (public_key r) \<and>
      (\<exists>k \<in> set signed_fields.
         property candidate k \<noteq> property (RealitySignature_object r) k)"
  let ?c = "asRealitySignature candidate"
  have sg: "signature ?c = signature r" and pk: "public_key ?c = public_key r"
    and dh: "document_hash ?c = string_of (property candidate ''document_hash'')"
    using a by (simp_all add: asRealitySignature_def string_of_def)
  show "verify lib document candidate =
      (if \<not> isValidSignatureFormat candidate then VerificationFailureMalformed
       else if string_of (property candidate ''document_hash'') \<noteq> document_hash r then
         VerificationFailureDocumentAltered (hashDocument lib document)
           (string_of (property candidate ''document_hash''))
       else VerificationFailureInvalidSignature)"
  proof (cases "isValidSignatureFormat candidate")
    case False
    then show ?thesis by (simp add: verify_cases)
  next
    case True
    show ?thesis
    proof (cases "string_of (property candidate ''document_hash'') = document_hash r")
      case False
      with True show ?thesis by (simp add: verify_cases dh f(1) doc [symmetric])
    next
      case same: True
      have "\<not> verifySignature lib (buildSignaturePayload (extractPayloadFields ?c))
          (signature ?c) (public_key ?c)"
      proof
        assume "verifySignature lib (buildSignaturePayload (extractPayloadFields ?c))
          (signature ?c) (public_key ?c)"
        then have "buildSignaturePayload (extractPayloadFields ?c) =
            buildSignaturePayload (extractPayloadFields r)"
          unfolding sg pk by (rule verifySignature_binding [OF lib r])
        then have e: "extractPayloadFields ?c = extractPayloadFields r"
          by (rule buildSignaturePayload_inj)
        from a obtain k where k: "k \<in> set signed_fields"
          and ne: "property candidate k \<noteq> property (RealitySignature_object r) k" by blast
        have "property candidate k = property (RealitySignature_object ?c) k"
          by (rule signed_fields_typed [OF True k])
        also have "\<dots> = property (RealitySignature_object r) k"
          by (rule object_signed_fields [OF e k])
        finally show False using ne by simp
      qed
      with True same show ?thesis by (simp add: verify_cases dh f(1) doc [symmetric])
    qed
  qed
qed

text \<open>
  Claim C1, as amended. Let a record be produced by createRealitySignature over a document.
  Verified against a document with another digest, the record gives the failure of an
  altered document (the format failure, should the record break a format rule). A
  candidate that keeps the signature and the public key of the record but differs from it
  in a signed field never verifies: the result is the format failure when the candidate
  breaks a format rule, else the failure of an altered document when its document hash
  differs, else the failure of a signature that is not authentic. Ed25519 is assumed to
  accept a signature for the signed message only, base64 decoding to invert encoding, and
  the UTF-8 encoding to be injective.
\<close>
theorem tamper_detected:
  assumes lib: "ed25519_binding lib" "base64_roundtrip lib" "inj (utf8_encode lib)"
    and r: "createRealitySignature lib params sk = Inr r"
    and doc: "p_document_hash params = hashDocument lib document"
  shows
    "(hashDocument lib document' \<noteq> hashDocument lib document \<longrightarrow>
        verify lib document' (RealitySignature_object r) =
          (if \<not> isValidSignatureFormat (RealitySignature_object r) then
             VerificationFailureMalformed
           else VerificationFailureDocumentAltered (hashDocument lib document')
                  (hashDocument lib document))) \<and>
     (property candidate ''signature'' = JStr (signature r) \<and>
      property candidate ''public_key'' = JStr (public_key r) \<and>
      (\<exists>k \<in> set signed_fields.
         property candidate k \<noteq> property (RealitySignature_object r) k) \<longrightarrow>
        \<not> valid (verify lib document candidate) \<and>
        verify lib document candidate =
          (if \<not> isValidSignatureFormat candidate then VerificationFailureMalformed
           else if property candidate ''document_hash'' \<noteq> JStr (document_hash r) then
             VerificationFailureDocumentAltered (hashDocument lib document)
               (string_of (property candidate ''document_hash''))
           else VerificationFailureInvalidSignature))"
proof -
  have "property candidate ''document_hash'' =
      JStr (string_of (property candidate ''document_hash''))"
    if "isValidSignatureFormat candidate"
    using signed_fields_typed [OF that, of "''document_hash''"]
    by (simp add: signed_fields_def RealitySignature_object_def asRealitySignature_def)
  then have "(property candidate ''document_hash'' \<noteq> JStr (document_hash r)) =
      (string_of (property candidate ''document_hash'') \<noteq> document_hash r)"
    if "isValidSignatureFormat candidate"
    using that by (metis jsval.inject(3))
  then show ?thesis
    using tamper_cases [OF lib r doc, of document' candidate] by auto
qed

theorem tamper_counterexample:
  "(case createRealitySignature toy_lib toy_params toy_key of
      Inl e \<Rightarrow> None
    | Inr r \<Rightarrow> error (verify toy_lib toy_document
        (with_property (RealitySignature_object r) ''version'' (JStr ''2.0''))))
     = Some ''invalid_signature_format'' \<and>
   (case createRealitySignature toy_lib (toy_params\<lparr>p_timestamp := 1\<rparr>) toy_key of
      Inl e \<Rightarrow> None
    | Inr r \<Rightarrow> error (verify toy_lib toy_document
        (with_property (RealitySignature_object r) ''timestamp'' (JNum (timestamp r - 1)))))
     = Some ''invalid_signature_format''"
proof -
  have 1: "verify lib document (with_property (RealitySignature_object r) ''version''
      (JStr ''2.0'')) = VerificationFailureMalformed" for lib document r
    by (simp add: verify_cases isValidSignatureFormat_def RealitySignature_object_def)
  have 2: "verify lib document (with_property (RealitySignature_object r)
      ''timestamp'' (JNum 0)) = VerificationFailureMalformed" for lib document r
    by (simp add: verify_cases isValidSignatureFormat_def RealitySignature_object_def)
  obtain r1 where r1: "createRealitySignature toy_lib toy_params toy_key = Inr r1"
    using toy_create by blast
  obtain r2 where r2: "createRealitySignature toy_lib (toy_params\<lparr>p_timestamp := 1\<rparr>) toy_key
      = Inr r2"
    by (simp add: createRealitySignature_def sign_def toy_lib_def Let_def)
  have "timestamp r2 = 1" using createRealitySignature_fields(6) [OF r2] by simp
  then show ?thesis by (simp add: r1 r2 1 2)
qed

theorem tamper_detected_witness:
  "\<exists>r. createRealitySignature toy_lib toy_params toy_key = Inr r \<and>
     verify toy_lib [1] (RealitySignature_object r) =
       VerificationFailureDocumentAltered (replicate 64 (CHR ''1'')) (replicate 64 (CHR ''5'')) \<and>
     verify toy_lib toy_document
       (with_property (RealitySignature_object r) ''timestamp'' (JNum 1234567890124)) =
       VerificationFailureInvalidSignature \<and>
     verify toy_lib toy_document
       (with_property (RealitySignature_object r) ''document_hash'' (JStr (replicate 64 (CHR ''6'')))) =
       VerificationFailureDocumentAltered (replicate 64 (CHR ''5'')) (replicate 64 (CHR ''6''))"
proof -
  obtain r where r: "createRealitySignature toy_lib toy_params toy_key = Inr r"
    using toy_create by blast
  note f = createRealitySignature_fields [OF r]
  have w: "wellformed_signature r"
    by (rule createRealitySignature_wellformed [OF toy_correct toy_base64 toy_params_wellformed r])
  then have v: "isValidSignatureFormat (RealitySignature_object r)"
    by (simp add: isValidSignatureFormat_object)
  have h: "hashDocument toy_lib toy_document = replicate 64 (CHR ''5'')"
    "hashDocument toy_lib [1] = replicate 64 (CHR ''1'')"
    by (simp_all add: hashDocument_def toy_lib_def toy_document_def hex_digit_5 hex_digit_1)
  let ?c1 = "with_property (RealitySignature_object r) ''timestamp'' (JNum 1234567890124)"
  let ?c2 = "with_property (RealitySignature_object r) ''document_hash''
      (JStr (replicate 64 (CHR ''6'')))"
  have v1: "isValidSignatureFormat ?c1"
    using w by (simp add: isValidSignatureFormat_def RealitySignature_object_def
        wellformed_signature_def version_string_def isHex64String_def isNonEmptyString_def)
  have v2: "isValidSignatureFormat ?c2"
    using w by (simp add: isValidSignatureFormat_def RealitySignature_object_def
        wellformed_signature_def version_string_def isHex64String_def isNonEmptyString_def
        isHex64_def list_all_iff)
  have p1: "property ?c1 ''signature'' = JStr (signature r) \<and>
      property ?c1 ''public_key'' = JStr (public_key r) \<and>
      (\<exists>k \<in> set signed_fields. property ?c1 k \<noteq> property (RealitySignature_object r) k)"
    by (simp add: RealitySignature_object_def signed_fields_def f toy_params_def)
  have p2: "property ?c2 ''signature'' = JStr (signature r) \<and>
      property ?c2 ''public_key'' = JStr (public_key r) \<and>
      (\<exists>k \<in> set signed_fields. property ?c2 k \<noteq> property (RealitySignature_object r) k)"
    by (simp add: RealitySignature_object_def signed_fields_def f toy_params_def)
  have d1: "property ?c1 ''document_hash'' = JStr (document_hash r)"
    by (simp add: RealitySignature_object_def)
  have d2: "property ?c2 ''document_hash'' = JStr (replicate 64 (CHR ''6''))"
    "replicate 64 (CHR ''6'') \<noteq> document_hash r"
    by (simp_all add: RealitySignature_object_def f toy_params_def)
  note t = tamper_detected [OF toy_binding toy_base64 toy_utf8_inj r toy_document_hash]
  from t [of "[1]" ?c1] v have a: "verify toy_lib [1] (RealitySignature_object r) =
      VerificationFailureDocumentAltered (replicate 64 (CHR ''1'')) (replicate 64 (CHR ''5''))"
    by (simp add: h)
  from t [of "[1]" ?c1] p1 v1 d1 have b: "verify toy_lib toy_document ?c1 =
      VerificationFailureInvalidSignature"
    by simp
  from t [of "[1]" ?c2] p2 v2 d2 have c: "verify toy_lib toy_document ?c2 =
      VerificationFailureDocumentAltered (replicate 64 (CHR ''5'')) (replicate 64 (CHR ''6''))"
    by (simp add: h string_of_def)
  from r a b c show ?thesis by blast
qed

section \<open>Sessions\<close>

text \<open>
  Claim C8. A session returned by createSession is pending, with no signature and no
  approval time. approveSession on a pending session whose expiry has not passed returns
  the session approved, with the given signature id and the time of approval. On an
  approved session it is rejected as already approved, on an expired one as expired.
\<close>
theorem session_transition:
  "(let s0 = fst (createSession lib w documentHash documentPath documentName intentText)
    in s_status s0 = pending \<and> s_signature_id s0 = None \<and> s_approved_at s0 = None) \<and>
   (s_status s = pending \<and> clock w 0 \<le> s_expires_at s \<longrightarrow>
      fst (approveSession w s signatureId) =
        Inr (s\<lparr>s_status := approved, s_approved_at := Some (clock w 1),
               s_signature_id := Some signatureId\<rparr>)) \<and>
   (s_status s = approved \<longrightarrow>
      fst (approveSession w s signatureId) = Inl (Error ''SESSION_ALREADY_APPROVED'')) \<and>
   (s_status s = expired \<longrightarrow>
      fst (approveSession w s signatureId) = Inl (Error ''SESSION_EXPIRED''))"
  by (simp add: createSession_def approveSession_def canApprove_def Date_now_def uuidv4_def
      Let_def split: prod.splits)

theorem session_transition_witness:
  "s_status (fst (createSession toy_lib toy_world ''dh'' ''/uploads/test.pdf'' ''test.pdf''
      ''Approve X'')) = pending \<and>
   fst (approveSession toy_world toy_session ''sig-123'') =
     Inr (toy_session\<lparr>s_status := approved, s_approved_at := Some 1001,
            s_signature_id := Some ''sig-123''\<rparr>) \<and>
   fst (approveSession toy_world (toy_session\<lparr>s_status := approved\<rparr>) ''sig-456'') =
     Inl (Error ''SESSION_ALREADY_APPROVED'') \<and>
   fst (approveSession toy_world (expireSession toy_session) ''sig-123'') =
     Inl (Error ''SESSION_EXPIRED'')"
  using session_transition [of toy_lib toy_world "''dh''" "''/uploads/test.pdf''" "''test.pdf''"
      "''Approve X''" toy_session "''sig-123''"]
    session_transition [of toy_lib toy_world "''dh''" "''/uploads/test.pdf''" "''test.pdf''"
      "''Approve X''" "toy_session\<lparr>s_status := approved\<rparr>" "''sig-456''"]
    session_transition [of toy_lib toy_world "''dh''" "''/uploads/test.pdf''" "''test.pdf''"
      "''Approve X''" "expireSession toy_session" "''sig-123''"]
  by (simp add: toy_world_def toy_session_def expireSession_def Let_def)

text \<open>
  Claim C9, as amended. approveSession rejects every session that is not pending, and
  canApprove is false of it; expireSession leaves an expired session as it is. But
  expireSession sets the status to expired whatever it was: an approved session becomes
  expired, with its other fields unchanged.
\<close>
theorem terminal_states:
  "(s_status s \<noteq> pending \<longrightarrow>
      fst (approveSession w s signatureId) =
        Inl (Error (if s_status s = expired then ''SESSION_EXPIRED''
                    else ''SESSION_ALREADY_APPROVED''))) \<and>
   (s_status s = expired \<longrightarrow> expireSession s = s) \<and>
   (s_status s \<noteq> pending \<longrightarrow> fst (canApprove w s) = False) \<and>
   expireSession s = s\<lparr>s_status := expired\<rparr>"
  by (simp add: approveSession_def canApprove_def expireSession_def)

theorem expire_approved_counterexample:
  "s_status (toy_session\<lparr>s_status := approved\<rparr>) = approved \<and>
   s_status (expireSession (toy_session\<lparr>s_status := approved\<rparr>)) = expired"
  by (simp add: expireSession_def)

theorem terminal_states_witness:
  "fst (approveSession toy_world (toy_session\<lparr>s_status := approved\<rparr>) ''sig-456'') =
     Inl (Error ''SESSION_ALREADY_APPROVED'') \<and>
   expireSession (expireSession toy_session) = expireSession toy_session \<and>
   fst (canApprove toy_world (expireSession toy_session)) = False \<and>
   expireSession (toy_session\<lparr>s_status := approved\<rparr>) = toy_session\<lparr>s_status := expired\<rparr>"
  using terminal_states [of "toy_session\<lparr>s_status := approved\<rparr>" toy_world "''sig-456''"]
    terminal_states [of "expireSession toy_session" toy_world "''sig-456''"]
  by (simp add: expireSession_def)

text \<open>
  Claim C10. approveSession on a session that is still pending but past its expiry is
  rejected with the message of an already approved session; the message of an expired
  session is produced only when the status is expired.
\<close>
theorem overdue_pending_rejection:
  "(s_status s = pending \<and> s_expires_at s < clock w 0 \<longrightarrow>
      fst (approveSession w s signatureId) = Inl (Error ''SESSION_ALREADY_APPROVED'')) \<and>
   (fst (approveSession w s signatureId) = Inl (Error ''SESSION_EXPIRED'') \<longrightarrow>
      s_status s = expired)"
  by (simp add: approveSession_def canApprove_def Date_now_def Let_def split: prod.splits)

theorem overdue_pending_rejection_witness:
  "s_status (toy_session\<lparr>s_expires_at := 999\<rparr>) = pending \<and>
   fst (approveSession toy_world (toy_session\<lparr>s_expires_at := 999\<rparr>) ''sig-123'') =
     Inl (Error ''SESSION_ALREADY_APPROVED'') \<and>
   fst (approveSession toy_world (expireSession toy_session) ''sig-123'') =
     Inl (Error ''SESSION_EXPIRED'') \<and>
   s_status (expireSession toy_session) = expired"
  using overdue_pending_rejection [of "toy_session\<lparr>s_expires_at := 999\<rparr>" toy_world "''sig-123''"]
    overdue_pending_rejection [of "expireSession toy_session" toy_world "''sig-123''"]
  by (simp add: toy_world_def toy_session_def expireSession_def approveSession_def
      canApprove_def)

end
